theory Spec2Isabelle
  imports Complex_Main "HOL-Library.Word"
begin

unbundle bit_operations_syntax

section \<open>The DHT sensor decoder of expodht (dht22.py)\<close>

subsection \<open>Data model\<close>

text \<open>
  The module-level constants \<open>DHTAUTO\<close>, \<open>DHT11\<close>, \<open>DHTXX\<close> select the sensor
  model; \<open>DHT_GOOD\<close>, \<open>DHT_BAD_CHECKSUM\<close>, \<open>DHT_BAD_DATA\<close>, \<open>DHT_TIMEOUT\<close> are
  the status of a reading.
\<close>

datatype model = DHTAUTO | DHT11 | DHTXX

datatype status = DHT_GOOD | DHT_BAD_CHECKSUM | DHT_BAD_DATA | DHT_TIMEOUT

text \<open>
  The fields \<open>_temperature\<close> and \<open>_humidity\<close> hold a Python number: a float
  (initially \<open>0.0\<close>, or a value of \<open>_validate_DHTXX\<close>) or an int (a byte, from
  \<open>_validate_DHT11\<close>). A float is modelled by the real number it stands for: the only
  float operation of the decoder is one division of an integer below \<open>2 ^ 16\<close> by
  \<open>10.0\<close> or \<open>-10.0\<close>, compared with constants that are whole numbers.
\<close>

datatype pynum = PyInt int | PyFloat real

text \<open>
  The attributes of \<open>Sensor\<close>. \<open>callback\<close> is \<open>True\<close> when \<open>self._callback\<close> is
  not \<open>None\<close>; the handles \<open>_pi\<close> and \<open>_cb_id\<close> belong to the GPIO library and carry
  no decoder state.
\<close>

record sensor =
  gpio :: int
  model :: model
  callback :: bool
  new_data :: bool
  in_code :: bool
  bits :: int
  code :: int
  status :: status
  timestamp :: real
  temperature :: pynum
  humidity :: pynum
  last_edge_tick :: int

text \<open>
  \<open>Sensor.__init__\<close>: \<open>now\<close> is the value of \<open>time.time()\<close> and \<open>tick\<close> the
  value of \<open>pi.get_current_tick()\<close>.
\<close>

definition init :: "int \<Rightarrow> model \<Rightarrow> bool \<Rightarrow> real \<Rightarrow> int \<Rightarrow> sensor" where
  "init g m cb now tick =
     \<lparr> gpio = g, model = m, callback = cb,
       new_data = False, in_code = False,
       bits = 0, code = 0,
       status = DHT_TIMEOUT, timestamp = now,
       temperature = PyFloat 0, humidity = PyFloat 0,
       last_edge_tick = tick - 10000 \<rparr>"

type_synonym datum = "real \<times> int \<times> status \<times> pynum \<times> pynum"

definition datum :: "sensor \<Rightarrow> datum" where
  "datum s = (timestamp s, gpio s, status s, temperature s, humidity s)"

subsection \<open>Interpretation of a frame\<close>

definition validate_DHT11 :: "int \<Rightarrow> int \<Rightarrow> int \<Rightarrow> int \<Rightarrow> bool \<times> pynum \<times> pynum" where
  "validate_DHT11 b1 b2 b3 b4 =
     (let t = b2; h = b4;
          valid = (if b1 = 0 \<and> b3 = 0 \<and> t \<le> 60 \<and> h \<ge> 9 \<and> h \<le> 90 then True else False)
      in (valid, PyInt t, PyInt h))"

definition validate_DHTXX :: "int \<Rightarrow> int \<Rightarrow> int \<Rightarrow> int \<Rightarrow> bool \<times> pynum \<times> pynum" where
  "validate_DHTXX b1 b2 b3 b4 =
     (let dv = (if b2 AND 128 \<noteq> 0 then - 10 else 10 :: real);
          t = real_of_int (push_bit 8 (b2 AND 127) + b1) / dv;
          h = real_of_int (push_bit 8 b4 + b3) / 10;
          valid = (if h \<le> 110 \<and> t \<ge> - 50 \<and> t \<le> 135 then True else False)
      in (valid, PyFloat t, PyFloat h))"

definition decode_dhtxx :: "sensor \<Rightarrow> sensor" where
  "decode_dhtxx s =
     (let b0 = code s AND 255;
          b1 = drop_bit 8 (code s) AND 255;
          b2 = drop_bit 16 (code s) AND 255;
          b3 = drop_bit 24 (code s) AND 255;
          b4 = drop_bit 32 (code s) AND 255;
          chksum = (b1 + b2 + b3 + b4) AND 255;
          s' = (if chksum = b0 then
                  (let (valid, t, h) =
                         (if model s = DHT11 then validate_DHT11 b1 b2 b3 b4
                          else if model s = DHTXX then validate_DHTXX b1 b2 b3 b4
                          else (let (valid, t, h) = validate_DHTXX b1 b2 b3 b4
                                in if \<not> valid then validate_DHT11 b1 b2 b3 b4
                                   else (valid, t, h)))
                   in if valid then s\<lparr>temperature := t, humidity := h, status := DHT_GOOD\<rparr>
                      else s\<lparr>status := DHT_BAD_DATA\<rparr>)
                else s\<lparr>status := DHT_BAD_CHECKSUM\<rparr>)
      in s'\<lparr>new_data := True\<rparr>)"

subsection \<open>The edge handler\<close>

text \<open>
  Modelled from the spec: \<open>pigpio.tickDiff\<close> belongs to the GPIO library. The spec
  describes it as the wraparound-safe difference of two ticks of a 32-bit counter, a
  fixed-width unsigned subtraction with modulo wraparound.
\<close>

definition tickDiff :: "int \<Rightarrow> int \<Rightarrow> int" where
  "tickDiff t1 t2 = (t2 - t1) mod 2 ^ 32"

definition rising_edge :: "int \<Rightarrow> sensor \<Rightarrow> sensor" where
  "rising_edge tick s0 =
     (let edge_len = tickDiff (last_edge_tick s0) tick;
          s = s0\<lparr>last_edge_tick := tick\<rparr>
      in if edge_len > 10000 then s\<lparr>in_code := True, bits := - 2, code := 0\<rparr>
         else if in_code s then
           (let s = s\<lparr>bits := bits s + 1\<rparr>;
                s = (if bits s \<ge> 1 then
                       (let s = s\<lparr>code := push_bit 1 (code s)\<rparr>
                        in if edge_len \<ge> 60 \<and> edge_len \<le> 150 then
                             (if edge_len > 100 then s\<lparr>code := code s + 1\<rparr> else s)
                           else s\<lparr>in_code := False\<rparr>)
                     else s)
            in if in_code s then
                 (if bits s = 40 then (decode_dhtxx s)\<lparr>in_code := False\<rparr> else s)
               else s)
         else s)"

text \<open>
  The edge handler runs once per rising edge, in the order of the edges:
  \<open>run_edges\<close> feeds it a stream of ticks, and \<open>intervals\<close> lists the
  \<open>edge_len\<close> the handler computes for each of them, from the last edge before
  the stream.
\<close>

fun run_edges :: "sensor \<Rightarrow> int list \<Rightarrow> sensor" where
  "run_edges s [] = s"
| "run_edges s (tick # ticks) = run_edges (rising_edge tick s) ticks"

fun intervals :: "int \<Rightarrow> int list \<Rightarrow> int list" where
  "intervals l [] = []"
| "intervals l (tick # ticks) = tickDiff l tick # intervals tick ticks"

text \<open>
  \<open>_decode_dhtxx\<close> is the only code that sets \<open>_new_data\<close>, and it always does:
  the handler hands the accumulator to it at an edge exactly when that edge raises
  the flag from a cleared one. \<open>handoffs\<close> lists, for a stream of edges, the
  accumulator handed over and the status decoded at each such edge.
\<close>

definition hands_off :: "int \<Rightarrow> sensor \<Rightarrow> bool" where
  "hands_off tick s = new_data (rising_edge tick (s\<lparr>new_data := False\<rparr>))"

fun handoffs :: "sensor \<Rightarrow> int list \<Rightarrow> (int \<times> status) list" where
  "handoffs s [] = []"
| "handoffs s (tick # ticks) =
     (let s' = rising_edge tick s
      in (if hands_off tick s then [(code s', status s')] else []) @ handoffs s' ticks)"

subsection \<open>Reading the sensor\<close>

text \<open>
  \<open>_trigger\<close> resets the reading, then drives the line low for \<open>trigger_pulse_ms\<close>
  milliseconds and releases it. The sensor answers after the release: no rising edge
  reaches the handler while the host holds the line low.
\<close>

definition trigger_pulse_ms :: "sensor \<Rightarrow> nat" where
  "trigger_pulse_ms s = (if model s \<noteq> DHTXX then 18 else 1)"

definition trigger :: "real \<Rightarrow> sensor \<Rightarrow> sensor" where
  "trigger now s = s\<lparr>new_data := False, timestamp := now, status := DHT_TIMEOUT\<rparr>"

text \<open>
  The loop of \<open>read\<close>: \<open>for i in range(5): time.sleep(0.05); if self._new_data: break\<close>.
  The edge handler runs on the GPIO library's thread while \<open>read\<close> sleeps: the head
  of \<open>arrivals\<close> holds the ticks of the edges delivered during the next sleep (none
  once the list is used up). The result carries the number of sleeps performed.
\<close>

fun wait_loop :: "nat \<Rightarrow> int list list \<Rightarrow> sensor \<Rightarrow> sensor \<times> nat" where
  "wait_loop 0 arrivals s = (s, 0)"
| "wait_loop (Suc n) arrivals s =
     (let s' = run_edges s (case arrivals of [] \<Rightarrow> [] | ticks # _ \<Rightarrow> ticks)
      in if new_data s' then (s', 1)
         else (case wait_loop n (tl arrivals) s' of (s'', k) \<Rightarrow> (s'', Suc k)))"

text \<open>
  \<open>read\<close>: the tuple returned, the arguments of the calls made to the callback, the
  number of 50 ms sleeps of the loop, and the sensor afterwards.
\<close>

record outcome =
  returned :: datum
  calls :: "datum list"
  sleeps :: nat
  sensor_after :: sensor

definition read :: "real \<Rightarrow> int list list \<Rightarrow> sensor \<Rightarrow> outcome" where
  "read now arrivals s =
     (let s1 = trigger now s;
          (s2, k) = wait_loop 5 arrivals s1;
          d = datum s2
      in \<lparr> returned = d,
           calls = (if callback s2 then [d] else []),
           sleeps = k,
           sensor_after = s2 \<rparr>)"

subsection \<open>Vocabulary of the specification\<close>

text \<open>
  The bytes \<open>b0 .. b4\<close> of a frame, \<open>b0\<close> the least significant; the frame
  assembled from five bytes; the checksum rule.
\<close>

definition frame_byte :: "nat \<Rightarrow> int \<Rightarrow> int" where
  "frame_byte k c = c div 2 ^ (8 * k) mod 256"

definition frame_of_bytes :: "int \<Rightarrow> int \<Rightarrow> int \<Rightarrow> int \<Rightarrow> int \<Rightarrow> int" where
  "frame_of_bytes b0 b1 b2 b3 b4 =
     b0 + 2 ^ 8 * b1 + 2 ^ 16 * b2 + 2 ^ 24 * b3 + 2 ^ 32 * b4"

definition is_byte :: "int \<Rightarrow> bool" where
  "is_byte b = (0 \<le> b \<and> b < 256)"

definition checksum_ok :: "int \<Rightarrow> bool" where
  "checksum_ok c =
     ((frame_byte 1 c + frame_byte 2 c + frame_byte 3 c + frame_byte 4 c) mod 256
        = frame_byte 0 c)"

text \<open>
  Pulse widths: a data pulse is valid between 60 and 150 microseconds and stands for
  a 1 when longer than 100. \<open>be_bits\<close> is the big-endian value of a bit string, the
  first bit the most significant.
\<close>

definition valid_pulse :: "int \<Rightarrow> bool" where
  "valid_pulse d = (60 \<le> d \<and> d \<le> 150)"

definition one_bit :: "int \<Rightarrow> bool" where
  "one_bit d = (d > 100)"

definition be_bits :: "bool list \<Rightarrow> int" where
  "be_bits bs = foldl (\<lambda>a b. 2 * a + (if b then 1 else 0)) 0 bs"

text \<open>The tick stream whose intervals are \<open>ds\<close>, after a last edge at tick \<open>l\<close>.\<close>

fun ticks_from :: "int \<Rightarrow> int list \<Rightarrow> int list" where
  "ticks_from l [] = []"
| "ticks_from l (d # ds) = (l + d) mod 2 ^ 32 # ticks_from ((l + d) mod 2 ^ 32) ds"

text \<open>
  The interpretation that \<open>_decode_dhtxx\<close> applies to the data bytes of a frame
  under a model: for any model other than \<open>DHT11\<close> and \<open>DHTXX\<close>, the
  \<open>DHTXX\<close> one first and the \<open>DHT11\<close> one when that is invalid.
\<close>

definition validated :: "model \<Rightarrow> int \<Rightarrow> bool \<times> pynum \<times> pynum" where
  "validated m c =
     (let b1 = frame_byte 1 c; b2 = frame_byte 2 c; b3 = frame_byte 3 c; b4 = frame_byte 4 c
      in if m = DHT11 then validate_DHT11 b1 b2 b3 b4
         else if m = DHTXX then validate_DHTXX b1 b2 b3 b4
         else if fst (validate_DHTXX b1 b2 b3 b4) then validate_DHTXX b1 b2 b3 b4
         else validate_DHT11 b1 b2 b3 b4)"

text \<open>
  The intervals since the most recent long gap of a history of intervals, oldest
  first; \<open>None\<close> when the history has no long gap.
\<close>

fun since_gap :: "int list \<Rightarrow> int list option" where
  "since_gap [] = None"
| "since_gap (d # ds) =
     (case since_gap ds of
        Some body \<Rightarrow> Some body
      | None \<Rightarrow> if d > 10000 then Some ds else None)"

text \<open>
  The invariant of the decoder: inside a frame, \<open>bits\<close> counts the intervals since
  the long gap that started the frame, less the two discard slots, every interval
  after these two was a valid data pulse, and \<open>code\<close> is the big-endian value of
  their bits.
\<close>

definition frame_inv :: "sensor \<Rightarrow> int list \<Rightarrow> bool" where
  "frame_inv s hist =
     (if in_code s then
        (case since_gap hist of
           None \<Rightarrow> False
         | Some body \<Rightarrow>
             bits s = int (length body) - 2
             \<and> list_all valid_pulse (drop 2 body)
             \<and> code s = be_bits (map one_bit (drop 2 body)))
      else True)"

text \<open>
  A sample transmission: the 40 pulse widths of the frame \<open>0x028C015FEE\<close> (humidity
  65.2, temperature 35.1, checksum \<open>0xEE\<close>), 70 microseconds for a 0 and 130 for
  a 1.
\<close>

definition sample_pulses :: "int list" where
  "sample_pulses =
     [70, 70, 70, 70, 70, 70, 130, 70, 130, 70, 70, 70, 130, 130, 70, 70,
      70, 70, 70, 70, 70, 70, 70, 130, 70, 130, 70, 130, 130, 130, 130, 130,
      130, 130, 130, 70, 130, 130, 130, 70]"

text \<open>
  The temperature and humidity of the most recent good reading among the frames
  handed over, or the values \<open>v\<close> stored before them when none was good.
\<close>

fun last_good :: "model \<Rightarrow> pynum \<times> pynum \<Rightarrow> (int \<times> status) list \<Rightarrow> pynum \<times> pynum" where
  "last_good m v [] = v"
| "last_good m v (h # hs) =
     last_good m (if snd h = DHT_GOOD then snd (validated m (fst h)) else v) hs"

section \<open>Properties of the model\<close>

subsection \<open>Bytes of a frame\<close>

lemma and_255: "(k::int) AND 255 = k mod 256"
proof -
  have "k AND 255 = k AND mask 8" by (simp add: mask_eq_exp_minus_1)
  also have "\<dots> = take_bit 8 k" by (simp add: take_bit_eq_mask)
  also have "\<dots> = k mod 256" by (simp add: take_bit_eq_mod)
  finally show ?thesis .
qed

lemma byte_simps:
  "c AND 255 = frame_byte 0 c"
  "drop_bit 8 c AND 255 = frame_byte 1 c"
  "drop_bit 16 c AND 255 = frame_byte 2 c"
  "drop_bit 24 c AND 255 = frame_byte 3 c"
  "drop_bit 32 c AND 255 = frame_byte 4 c"
  by (simp_all add: frame_byte_def and_255 drop_bit_eq_div)

lemma is_byte_frame_byte: "is_byte (frame_byte k c)"
  by (simp add: is_byte_def frame_byte_def)


lemma peel_div: "is_byte a \<Longrightarrow> (a + 256 * q) div 256 = q"
  by (simp add: is_byte_def)

lemma peel_mod: "is_byte a \<Longrightarrow> (a + 256 * q) mod 256 = a"
  by (simp add: is_byte_def)

lemma frame_of_bytes_nested:
  "frame_of_bytes b0 b1 b2 b3 b4 = b0 + 256 * (b1 + 256 * (b2 + 256 * (b3 + 256 * b4)))"
  by (simp add: frame_of_bytes_def)

lemma frame_byte_Suc: "frame_byte (Suc k) c = frame_byte k (c div 256)"
proof -
  have "(2::int) ^ (8 * Suc k) = 256 * 2 ^ (8 * k)" by (simp add: power_add)
  then show ?thesis by (simp add: frame_byte_def zdiv_zmult2_eq del: power_Suc mult_Suc_right)
qed

lemma frame_byte_0: "frame_byte 0 c = c mod 256"
  by (simp add: frame_byte_def)

lemma frame_byte_frame_of_bytes:
  assumes "is_byte b0" "is_byte b1" "is_byte b2" "is_byte b3" "is_byte b4"
  shows "frame_byte 0 (frame_of_bytes b0 b1 b2 b3 b4) = b0"
    and "frame_byte 1 (frame_of_bytes b0 b1 b2 b3 b4) = b1"
    and "frame_byte 2 (frame_of_bytes b0 b1 b2 b3 b4) = b2"
    and "frame_byte 3 (frame_of_bytes b0 b1 b2 b3 b4) = b3"
    and "frame_byte 4 (frame_of_bytes b0 b1 b2 b3 b4) = b4"
    and "frame_byte (Suc 0) (frame_of_bytes b0 b1 b2 b3 b4) = b1"
proof -
  have n: "(1::nat) = Suc 0" "(2::nat) = Suc (Suc 0)" "(3::nat) = Suc (Suc (Suc 0))"
    "(4::nat) = Suc (Suc (Suc (Suc 0)))" by simp_all
  have b4: "b4 mod 256 = b4" using assms(5) by (simp add: is_byte_def)
  show "frame_byte 0 (frame_of_bytes b0 b1 b2 b3 b4) = b0"
    by (simp only: frame_of_bytes_nested frame_byte_0 peel_mod assms)
  show "frame_byte 1 (frame_of_bytes b0 b1 b2 b3 b4) = b1"
    by (simp only: n frame_of_bytes_nested frame_byte_Suc frame_byte_0 peel_mod peel_div assms)
  show "frame_byte (Suc 0) (frame_of_bytes b0 b1 b2 b3 b4) = b1"
    by (simp only: n frame_of_bytes_nested frame_byte_Suc frame_byte_0 peel_mod peel_div assms)
  show "frame_byte 2 (frame_of_bytes b0 b1 b2 b3 b4) = b2"
    by (simp only: n frame_of_bytes_nested frame_byte_Suc frame_byte_0 peel_mod peel_div assms)
  show "frame_byte 3 (frame_of_bytes b0 b1 b2 b3 b4) = b3"
    by (simp only: n frame_of_bytes_nested frame_byte_Suc frame_byte_0 peel_mod peel_div assms)
  show "frame_byte 4 (frame_of_bytes b0 b1 b2 b3 b4) = b4"
    by (simp only: n frame_of_bytes_nested frame_byte_Suc frame_byte_0 peel_mod peel_div assms b4)
qed

subsection \<open>What the decoder computes\<close>

lemma decode_dhtxx_eq:
  "decode_dhtxx s =
     (if checksum_ok (code s) then
        (case validated (model s) (code s) of
           (valid, t, h) \<Rightarrow>
             if valid then s\<lparr>temperature := t, humidity := h, status := DHT_GOOD, new_data := True\<rparr>
             else s\<lparr>status := DHT_BAD_DATA, new_data := True\<rparr>)
      else s\<lparr>status := DHT_BAD_CHECKSUM, new_data := True\<rparr>)"
proof -
  define b0 b1 b2 b3 b4 where b: "b0 = frame_byte 0 (code s)" "b1 = frame_byte 1 (code s)"
     "b2 = frame_byte 2 (code s)" "b3 = frame_byte 3 (code s)" "b4 = frame_byte 4 (code s)"
  have d: "decode_dhtxx s = (let chksum = (b1 + b2 + b3 + b4) AND 255;
          s' = (if chksum = b0 then
                  (let (valid, t, h) =
                         (if model s = DHT11 then validate_DHT11 b1 b2 b3 b4
                          else if model s = DHTXX then validate_DHTXX b1 b2 b3 b4
                          else (let (valid, t, h) = validate_DHTXX b1 b2 b3 b4
                                in if \<not> valid then validate_DHT11 b1 b2 b3 b4
                                   else (valid, t, h)))
                   in if valid then s\<lparr>temperature := t, humidity := h, status := DHT_GOOD\<rparr>
                      else s\<lparr>status := DHT_BAD_DATA\<rparr>)
                else s\<lparr>status := DHT_BAD_CHECKSUM\<rparr>)
      in s'\<lparr>new_data := True\<rparr>)"
    unfolding decode_dhtxx_def b byte_simps[symmetric] Let_def ..
  have v: "validated (model s) (code s) = (if model s = DHT11 then validate_DHT11 b1 b2 b3 b4
                          else if model s = DHTXX then validate_DHTXX b1 b2 b3 b4
                          else (let (valid, t, h) = validate_DHTXX b1 b2 b3 b4
                                in if \<not> valid then validate_DHT11 b1 b2 b3 b4
                                   else (valid, t, h)))"
    unfolding validated_def b Let_def by (simp split: prod.splits)
  have c: "checksum_ok (code s) = ((b1 + b2 + b3 + b4) AND 255 = b0)"
    unfolding checksum_ok_def b by (simp only: and_255)
  show ?thesis
    unfolding d c v Let_def
    by (simp split: prod.splits)
qed

lemma status_decode:
  "status (decode_dhtxx s) =
     (if checksum_ok (code s) then
        (if fst (validated (model s) (code s)) then DHT_GOOD else DHT_BAD_DATA)
      else DHT_BAD_CHECKSUM)"
  by (simp add: decode_dhtxx_eq split: prod.splits)

lemma values_decode:
  "temperature (decode_dhtxx s) =
     (if checksum_ok (code s) \<and> fst (validated (model s) (code s))
      then fst (snd (validated (model s) (code s))) else temperature s)"
  "humidity (decode_dhtxx s) =
     (if checksum_ok (code s) \<and> fst (validated (model s) (code s))
      then snd (snd (validated (model s) (code s))) else humidity s)"
  by (simp_all add: decode_dhtxx_eq split: prod.splits)

lemma decode_other_fields:
  "new_data (decode_dhtxx s)" "code (decode_dhtxx s) = code s" "bits (decode_dhtxx s) = bits s"
  "in_code (decode_dhtxx s) = in_code s" "model (decode_dhtxx s) = model s"
  "last_edge_tick (decode_dhtxx s) = last_edge_tick s" "timestamp (decode_dhtxx s) = timestamp s"
  "gpio (decode_dhtxx s) = gpio s" "callback (decode_dhtxx s) = callback s"
  by (simp_all add: decode_dhtxx_eq split: prod.splits)

subsection \<open>The two interpretations\<close>

lemma validated_simps:
  "validated DHT11 c = validate_DHT11 (frame_byte 1 c) (frame_byte 2 c) (frame_byte 3 c) (frame_byte 4 c)"
  "validated DHTXX c = validate_DHTXX (frame_byte 1 c) (frame_byte 2 c) (frame_byte 3 c) (frame_byte 4 c)"
  "validated DHTAUTO c =
     (if fst (validate_DHTXX (frame_byte 1 c) (frame_byte 2 c) (frame_byte 3 c) (frame_byte 4 c))
      then validate_DHTXX (frame_byte 1 c) (frame_byte 2 c) (frame_byte 3 c) (frame_byte 4 c)
      else validate_DHT11 (frame_byte 1 c) (frame_byte 2 c) (frame_byte 3 c) (frame_byte 4 c))"
  by (simp_all add: validated_def Let_def)

lemma validate_DHT11_eq:
  "validate_DHT11 b1 b2 b3 b4 =
     (b1 = 0 \<and> b3 = 0 \<and> b2 \<le> 60 \<and> 9 \<le> b4 \<and> b4 \<le> 90, PyInt b2, PyInt b4)"
  by (simp add: validate_DHT11_def Let_def)

lemma bit7: "(b AND 128 \<noteq> 0) = bit (b::int) 7"
  using bit_iff_and_push_bit_not_eq_0 [of b 7] by simp

lemma plus_is_or:
  assumes "is_byte b"
  shows "push_bit 8 a + b = push_bit 8 (a::int) OR b"
proof -
  from assms have b: "take_bit 8 b = b"
    by (simp add: is_byte_def take_bit_eq_mod)
  have "push_bit 8 a + take_bit 8 b = push_bit 8 a OR take_bit 8 b"
    using concat_bit_eq [of 8 b a] by (simp add: concat_bit_def ac_simps)
  then show ?thesis by (simp only: b)
qed


lemma validate_DHTXX_sum:
  "validate_DHTXX b1 b2 b3 b4 =
     (let m = real_of_int (push_bit 8 (b2 AND 127) + b1) / 10;
          t = (if bit b2 7 then - m else m);
          h = real_of_int (push_bit 8 b4 + b3) / 10
      in (h \<le> 110 \<and> - 50 \<le> t \<and> t \<le> 135, PyFloat t, PyFloat h))"
proof -
  define n k where nk: "n = push_bit 8 (b2 AND 127) + b1" "k = push_bit 8 b4 + b3"
  have "validate_DHTXX b1 b2 b3 b4 =
     (let dv = (if bit b2 7 then - 10 else 10 :: real);
          t = real_of_int n / dv;
          h = real_of_int k / 10;
          valid = (if h \<le> 110 \<and> t \<ge> - 50 \<and> t \<le> 135 then True else False)
      in (valid, PyFloat t, PyFloat h))"
    unfolding validate_DHTXX_def nk bit7 ..
  also have "\<dots> = (let m = real_of_int n / 10;
          t = (if bit b2 7 then - m else m);
          h = real_of_int k / 10
      in (h \<le> 110 \<and> - 50 \<le> t \<and> t \<le> 135, PyFloat t, PyFloat h))"
    by (simp add: Let_def)
  finally show ?thesis unfolding nk .
qed

lemma validate_DHTXX_eq:
  assumes "is_byte b1" "is_byte b3"
  shows "validate_DHTXX b1 b2 b3 b4 =
     (let m = real_of_int (push_bit 8 (b2 AND 127) OR b1) / 10;
          t = (if bit b2 7 then - m else m);
          h = real_of_int (push_bit 8 b4 OR b3) / 10
      in (h \<le> 110 \<and> - 50 \<le> t \<and> t \<le> 135, PyFloat t, PyFloat h))"
  unfolding validate_DHTXX_sum plus_is_or [OF assms(1)] plus_is_or [OF assms(2)] ..

text \<open>
  No bytes are valid under both interpretations: a valid \<open>DHT11\<close> humidity byte is at
  least 9, which read as the high byte of a \<open>DHTXX\<close> humidity is above 110.
\<close>

lemma never_both_valid:
  assumes "0 \<le> b3"
  shows "\<not> (fst (validate_DHTXX b1 b2 b3 b4) \<and> fst (validate_DHT11 b1 b2 b3 b4))"
proof
  assume v: "fst (validate_DHTXX b1 b2 b3 b4) \<and> fst (validate_DHT11 b1 b2 b3 b4)"
  then have "9 \<le> b4" by (simp add: validate_DHT11_eq)
  then have "2304 \<le> push_bit 8 b4 + b3" using assms by (simp add: push_bit_eq_mult)
  then have "2304 \<le> real_of_int (push_bit 8 b4 + b3)" by linarith
  moreover from v have "real_of_int (push_bit 8 b4 + b3) / 10 \<le> 110"
    by (simp add: validate_DHTXX_sum Let_def)
  ultimately show False by simp
qed

subsection \<open>One edge\<close>

lemma rising_edge_gap:
  "tickDiff (last_edge_tick s) tick > 10000 \<Longrightarrow>
   rising_edge tick s = s\<lparr>last_edge_tick := tick, in_code := True, bits := - 2, code := 0\<rparr>"
  by (simp add: rising_edge_def Let_def)

lemma rising_edge_idle:
  "\<not> tickDiff (last_edge_tick s) tick > 10000 \<Longrightarrow> \<not> in_code s \<Longrightarrow>
   rising_edge tick s = s\<lparr>last_edge_tick := tick\<rparr>"
  by (simp add: rising_edge_def Let_def)

lemma rising_edge_discard:
  "\<not> tickDiff (last_edge_tick s) tick > 10000 \<Longrightarrow> in_code s \<Longrightarrow> bits s < 0 \<Longrightarrow>
   rising_edge tick s = s\<lparr>last_edge_tick := tick, bits := bits s + 1\<rparr>"
  by (simp add: rising_edge_def Let_def)

lemma rising_edge_bit:
  "in_code s \<Longrightarrow> 0 \<le> bits s \<Longrightarrow> bits s \<noteq> 39 \<Longrightarrow>
   valid_pulse (tickDiff (last_edge_tick s) tick) \<Longrightarrow>
   rising_edge tick s =
     s\<lparr>last_edge_tick := tick, bits := bits s + 1, code := 2 * code s + (if one_bit (tickDiff (last_edge_tick s) tick) then 1 else 0)\<rparr>"
  by (simp add: rising_edge_def Let_def valid_pulse_def one_bit_def)

lemma rising_edge_last_bit:
  "in_code s \<Longrightarrow> bits s = 39 \<Longrightarrow> valid_pulse (tickDiff (last_edge_tick s) tick) \<Longrightarrow>
   rising_edge tick s =
     (decode_dhtxx (s\<lparr>last_edge_tick := tick, bits := 40, code := 2 * code s + (if one_bit (tickDiff (last_edge_tick s) tick) then 1 else 0)\<rparr>))
     \<lparr>in_code := False\<rparr>"
  by (simp add: rising_edge_def Let_def valid_pulse_def one_bit_def decode_other_fields mult.commute)

lemma rising_edge_abort:
  "\<not> tickDiff (last_edge_tick s) tick > 10000 \<Longrightarrow> in_code s \<Longrightarrow> 0 \<le> bits s \<Longrightarrow>
   \<not> valid_pulse (tickDiff (last_edge_tick s) tick) \<Longrightarrow>
   rising_edge tick s =
     s\<lparr>last_edge_tick := tick, in_code := False, bits := bits s + 1, code := 2 * code s\<rparr>"
  by (auto simp add: rising_edge_def Let_def valid_pulse_def)

lemma hands_off_iff:
  "hands_off tick s \<longleftrightarrow>
     in_code s \<and> bits s = 39 \<and> valid_pulse (tickDiff (last_edge_tick s) tick)"
  by (auto simp add: hands_off_def rising_edge_def Let_def valid_pulse_def decode_other_fields)

text \<open>An edge that does not hand a frame over leaves the reading as it was.\<close>

lemma rising_edge_keeps_reading:
  "\<not> hands_off tick s \<Longrightarrow>
   status (rising_edge tick s) = status s \<and> new_data (rising_edge tick s) = new_data s
   \<and> temperature (rising_edge tick s) = temperature s
   \<and> humidity (rising_edge tick s) = humidity s
   \<and> timestamp (rising_edge tick s) = timestamp s"
  by (auto simp add: hands_off_iff rising_edge_def Let_def valid_pulse_def)

lemma rising_edge_config:
  "model (rising_edge tick s) = model s" "gpio (rising_edge tick s) = gpio s"
  "callback (rising_edge tick s) = callback s" "timestamp (rising_edge tick s) = timestamp s"
  "last_edge_tick (rising_edge tick s) = tick"
  by (simp_all add: rising_edge_def Let_def decode_other_fields)

subsection \<open>Bit strings\<close>

lemma foldl_shift:
  "foldl (\<lambda>a b. 2 * a + (if b then 1 else 0)) c bs = c * 2 ^ length bs + be_bits bs"
proof (induction bs arbitrary: c)
  case Nil
  show ?case by (simp add: be_bits_def)
next
  case (Cons b bs)
  have "be_bits (b # bs) = (if b then 1 else 0) * 2 ^ length bs + be_bits bs"
    unfolding be_bits_def using Cons.IH [of "if b then 1 else 0"]
    by (simp add: be_bits_def)
  moreover have "foldl (\<lambda>a b. 2 * a + (if b then 1 else 0)) c (b # bs)
      = (2 * c + (if b then 1 else 0)) * 2 ^ length bs + be_bits bs"
    using Cons.IH [of "2 * c + (if b then 1 else 0)"] by simp
  ultimately show ?case by (simp add: algebra_simps)
qed

lemma be_bits_Nil: "be_bits [] = 0"
  by (simp add: be_bits_def)

lemma be_bits_Cons: "be_bits (b # bs) = (if b then 1 else 0) * 2 ^ length bs + be_bits bs"
  using foldl_shift [of "if b then 1 else 0" bs] by (simp add: be_bits_def)

lemma be_bits_append: "be_bits (xs @ ys) = be_bits xs * 2 ^ length ys + be_bits ys"
  using foldl_shift [of "be_bits xs" ys] by (simp add: be_bits_def)

lemma be_bits_snoc: "be_bits (bs @ [b]) = 2 * be_bits bs + (if b then 1 else 0)"
  by (simp add: be_bits_append be_bits_Cons be_bits_Nil)

lemma be_bits_range: "0 \<le> be_bits bs \<and> be_bits bs < 2 ^ length bs"
proof (induction bs rule: rev_induct)
  case Nil
  show ?case by (simp add: be_bits_Nil)
next
  case (snoc b bs)
  then show ?case by (auto simp add: be_bits_snoc)
qed

subsection \<open>Streams of edges\<close>

lemma run_edges_append: "run_edges s (xs @ ys) = run_edges (run_edges s xs) ys"
  by (induction xs arbitrary: s) simp_all

lemma last_edge_tick_run: "last_edge_tick (run_edges s ticks) = last (last_edge_tick s # ticks)"
  by (induction ticks arbitrary: s) (simp_all add: rising_edge_config)

lemma handoffs_append: "handoffs s (xs @ ys) = handoffs s xs @ handoffs (run_edges s xs) ys"
  by (induction xs arbitrary: s) (simp_all add: Let_def)

lemma intervals_append:
  "intervals l (xs @ ys) = intervals l xs @ intervals (last (l # xs)) ys"
  by (induction xs arbitrary: l) simp_all

lemma length_intervals: "length (intervals l ticks) = length ticks"
  by (induction ticks arbitrary: l) simp_all

lemma intervals_eq_Cons:
  "intervals l ticks = d # ds \<Longrightarrow>
   \<exists>t ts. ticks = t # ts \<and> tickDiff l t = d \<and> intervals t ts = ds"
  by (cases ticks) simp_all

lemma run_data:
  assumes "in_code s" "0 \<le> bits s" "bits s + int (length ticks) < 40"
    and "list_all valid_pulse (intervals (last_edge_tick s) ticks)"
  shows "run_edges s ticks =
           s\<lparr>last_edge_tick := last (last_edge_tick s # ticks), bits := bits s + int (length ticks), code := code s * 2 ^ length ticks
                       + be_bits (map one_bit (intervals (last_edge_tick s) ticks))\<rparr>
         \<and> handoffs s ticks = []"
  using assms
proof (induction ticks arbitrary: s)
  case Nil
  show ?case by (simp add: be_bits_Nil)
next
  case (Cons t ts)
  let ?d = "tickDiff (last_edge_tick s) t"
  let ?s' = "s\<lparr>last_edge_tick := t, bits := bits s + 1, code := 2 * code s + (if one_bit ?d then 1 else 0)\<rparr>"
  from Cons.prems have v: "valid_pulse ?d" and n39: "bits s \<noteq> 39" by simp_all
  have step: "rising_edge t s = ?s'"
    using Cons.prems(1,2) n39 v by (rule rising_edge_bit)
  have nh: "\<not> hands_off t s" using n39 by (simp add: hands_off_iff)
  have ih: "run_edges ?s' ts =
           ?s'\<lparr>last_edge_tick := last (last_edge_tick ?s' # ts), bits := bits ?s' + int (length ts), code := code ?s' * 2 ^ length ts
                       + be_bits (map one_bit (intervals (last_edge_tick ?s') ts))\<rparr>
         \<and> handoffs ?s' ts = []"
    using Cons.prems by (intro Cons.IH) simp_all
  show ?case
    using ih nh by (simp add: step be_bits_Cons length_intervals algebra_simps)
qed

lemma run_frame:
  assumes iv: "intervals (last_edge_tick s) ticks = gap # d1 # d2 # ds"
    and gap: "gap > 10000" and d1: "d1 \<le> 10000" and d2: "d2 \<le> 10000"
    and len: "length ds = 40" and val: "list_all valid_pulse ds"
  shows "run_edges s ticks =
           (decode_dhtxx (s\<lparr>last_edge_tick := last ticks, in_code := True, bits := 40, code := be_bits (map one_bit ds)\<rparr>))\<lparr>in_code := False\<rparr>
         \<and> handoffs s ticks = [(be_bits (map one_bit ds), status (run_edges s ticks))]"
proof -
  from iv obtain tg ts0 where t0: "ticks = tg # ts0" "tickDiff (last_edge_tick s) tg = gap"
    "intervals tg ts0 = d1 # d2 # ds" using intervals_eq_Cons by blast
  from t0(3) obtain t1 ts1 where t1: "ts0 = t1 # ts1" "tickDiff tg t1 = d1"
    "intervals t1 ts1 = d2 # ds" using intervals_eq_Cons by blast
  from t1(3) obtain t2 dts where t2: "ts1 = t2 # dts" "tickDiff t1 t2 = d2"
    "intervals t2 dts = ds" using intervals_eq_Cons by blast
  have ldts: "length dts = 40" using t2(3) len length_intervals [of t2 dts] by simp
  then obtain pre tl where sn: "dts = pre @ [tl]" and lpre: "length pre = 39"
    by (cases dts rule: rev_cases) simp_all
  define dl where "dl = tickDiff (last (t2 # pre)) tl"
  have ds: "ds = intervals t2 pre @ [dl]"
    using t2(3) by (simp add: sn intervals_append dl_def)
  have vpre: "list_all valid_pulse (intervals t2 pre)" and vdl: "valid_pulse dl"
    using val by (simp_all add: ds)
  let ?s1 = "s\<lparr>last_edge_tick := tg, in_code := True, bits := - 2, code := 0\<rparr>"
  let ?s2 = "s\<lparr>last_edge_tick := t1, in_code := True, bits := - 1, code := 0\<rparr>"
  let ?s3 = "s\<lparr>last_edge_tick := t2, in_code := True, bits := 0, code := 0\<rparr>"
  let ?s4 = "s\<lparr>last_edge_tick := last (t2 # pre), in_code := True, bits := 39, code := be_bits (map one_bit (intervals t2 pre))\<rparr>"
  have e1: "rising_edge tg s = ?s1"
    using gap by (simp add: rising_edge_gap t0(2))
  have h1: "\<not> hands_off tg s"
    using gap by (simp add: hands_off_iff t0(2) valid_pulse_def)
  have e2: "rising_edge t1 ?s1 = ?s2"
    using d1 by (simp add: rising_edge_discard t1(2))
  have h2: "\<not> hands_off t1 ?s1" by (simp add: hands_off_iff)
  have e3: "rising_edge t2 ?s2 = ?s3"
    using d2 by (simp add: rising_edge_discard t2(2))
  have h3: "\<not> hands_off t2 ?s2" by (simp add: hands_off_iff)
  have r4: "run_edges ?s3 pre = ?s4 \<and> handoffs ?s3 pre = []"
    using run_data [of ?s3 pre] vpre lpre by (simp del: last.simps)
  have c5: "2 * code ?s4 + (if one_bit (tickDiff (last_edge_tick ?s4) tl) then 1 else 0)
      = be_bits (map one_bit ds)"
    by (simp add: dl_def ds be_bits_snoc del: last.simps)
  have q5: "?s4\<lparr>last_edge_tick := tl, bits := 40, code := be_bits (map one_bit ds)\<rparr>
      = s\<lparr>last_edge_tick := tl, in_code := True, bits := 40, code := be_bits (map one_bit ds)\<rparr>"
    by simp
  have r5: "rising_edge tl ?s4 =
      (decode_dhtxx (?s4\<lparr>last_edge_tick := tl, bits := 40, code := be_bits (map one_bit ds)\<rparr>))\<lparr>in_code := False\<rparr>"
    unfolding c5 [symmetric]
    by (rule rising_edge_last_bit) (use vdl in \<open>simp_all add: dl_def del: last.simps\<close>)
  have e5: "rising_edge tl ?s4 =
      (decode_dhtxx (s\<lparr>last_edge_tick := tl, in_code := True, bits := 40, code := be_bits (map one_bit ds)\<rparr>))\<lparr>in_code := False\<rparr>"
    using r5 unfolding q5 .
  have h5: "hands_off tl ?s4" using vdl by (simp add: hands_off_iff dl_def del: last.simps)
  have run: "run_edges s ticks =
      (decode_dhtxx (s\<lparr>last_edge_tick := tl, in_code := True, bits := 40, code := be_bits (map one_bit ds)\<rparr>))\<lparr>in_code := False\<rparr>"
    by (simp add: t0(1) t1(1) t2(1) sn run_edges_append e1 e2 e3 r4 e5 del: last.simps)
  have lt: "last ticks = tl" by (simp add: t0(1) t1(1) t2(1) sn)
  have "handoffs s ticks = [(code (run_edges s ticks), status (run_edges s ticks))]"
    unfolding run
    by (simp add: t0(1) t1(1) t2(1) sn handoffs_append e1 e2 e3 r4 e5 h1 h2 h3 h5 Let_def
        del: last.simps)
  moreover have "code (run_edges s ticks) = be_bits (map one_bit ds)"
    by (simp add: run decode_other_fields)
  ultimately show ?thesis by (simp add: run lt)
qed

lemma since_gap_snoc:
  "since_gap (hist @ [d]) =
     (if d > 10000 then Some [] else map_option (\<lambda>body. body @ [d]) (since_gap hist))"
  by (induction hist) (auto split: option.splits)

lemma since_gap_Some:
  "since_gap hist = Some body \<Longrightarrow>
   \<exists>pre gap. hist = pre @ gap # body \<and> gap > 10000 \<and> list_all (\<lambda>d. d \<le> 10000) body"
proof (induction hist arbitrary: body)
  case Nil
  then show ?case by simp
next
  case (Cons d ds)
  show ?case
  proof (cases "since_gap ds")
    case None
    with Cons.prems have g: "d > 10000" and b: "body = ds"
      by (simp_all split: if_splits)
    have "list_all (\<lambda>d. d \<le> 10000) ds"
      using None
    proof (induction ds)
      case Nil
      show ?case by simp
    next
      case (Cons x xs)
      then show ?case by (auto split: option.splits if_splits)
    qed
    with g b have "d # ds = [] @ d # body \<and> d > 10000 \<and> list_all (\<lambda>d. d \<le> 10000) body"
      by simp
    then show ?thesis by blast
  next
    case (Some b')
    with Cons.prems have "body = b'" by simp
    with Some Cons.IH obtain pre gap where
      "ds = pre @ gap # body" "gap > 10000" "list_all (\<lambda>d. d \<le> 10000) body"
      by blast
    then have "d # ds = (d # pre) @ gap # body \<and> gap > 10000 \<and> list_all (\<lambda>d. d \<le> 10000) body"
      by simp
    then show ?thesis by blast
  qed
qed

lemma frame_inv_step:
  assumes "frame_inv s hist"
  shows "frame_inv (rising_edge tick s) (hist @ [tickDiff (last_edge_tick s) tick])"
proof -
  let ?d = "tickDiff (last_edge_tick s) tick"
  have "?d > 10000 \<or> (\<not> ?d > 10000 \<and> \<not> in_code s)
      \<or> (\<not> ?d > 10000 \<and> in_code s \<and> bits s < 0)
      \<or> (\<not> ?d > 10000 \<and> in_code s \<and> 0 \<le> bits s \<and> \<not> valid_pulse ?d)
      \<or> (in_code s \<and> bits s = 39 \<and> valid_pulse ?d)
      \<or> (\<not> ?d > 10000 \<and> in_code s \<and> 0 \<le> bits s \<and> bits s \<noteq> 39 \<and> valid_pulse ?d)"
    by (auto simp add: valid_pulse_def)
  then consider (gap) "?d > 10000"
    | (idle) "\<not> ?d > 10000" "\<not> in_code s"
    | (discard) "\<not> ?d > 10000" "in_code s" "bits s < 0"
    | (abort) "\<not> ?d > 10000" "in_code s" "0 \<le> bits s" "\<not> valid_pulse ?d"
    | (last) "in_code s" "bits s = 39" "valid_pulse ?d"
    | (bit) "\<not> ?d > 10000" "in_code s" "0 \<le> bits s" "bits s \<noteq> 39" "valid_pulse ?d"
    by blast
  then show ?thesis
  proof cases
    case gap
    then show ?thesis
      by (simp add: rising_edge_gap frame_inv_def since_gap_snoc be_bits_Nil)
  next
    case idle
    then show ?thesis by (simp add: rising_edge_idle frame_inv_def)
  next
    case discard
    with assms obtain body where b: "since_gap hist = Some body"
      "bits s = int (length body) - 2" "code s = be_bits (map one_bit (drop 2 body))"
      by (auto simp add: frame_inv_def split: option.splits)
    from discard(3) b(2) have "length body \<le> 1" by simp
    with b discard show ?thesis
      by (simp add: rising_edge_discard frame_inv_def since_gap_snoc be_bits_Nil)
  next
    case abort
    then show ?thesis by (simp add: rising_edge_abort frame_inv_def)
  next
    case last
    then show ?thesis
      by (simp add: rising_edge_last_bit frame_inv_def decode_other_fields)
  next
    case bit
    with assms obtain body where b: "since_gap hist = Some body"
      "bits s = int (length body) - 2" "list_all valid_pulse (drop 2 body)"
      "code s = be_bits (map one_bit (drop 2 body))"
      by (auto simp add: frame_inv_def split: option.splits)
    from bit(3) b(2) have "2 \<le> length body" by simp
    with b bit show ?thesis
      by (simp add: rising_edge_bit frame_inv_def since_gap_snoc be_bits_snoc)
  qed
qed

lemma frame_inv_run:
  assumes "frame_inv s hist"
  shows "frame_inv (run_edges s ticks) (hist @ intervals (last_edge_tick s) ticks)"
  using assms
proof (induction ticks arbitrary: s hist)
  case Nil
  then show ?case by simp
next
  case (Cons t ts)
  from frame_inv_step [OF Cons.prems, of t]
  have "frame_inv (run_edges (rising_edge t s) ts)
          ((hist @ [tickDiff (last_edge_tick s) t])
             @ intervals (last_edge_tick (rising_edge t s)) ts)"
    by (rule Cons.IH)
  then show ?case by (simp add: rising_edge_config)
qed

lemma tickDiff_ticks_from: "0 \<le> d \<Longrightarrow> d < 2 ^ 32 \<Longrightarrow> tickDiff l ((l + d) mod 2 ^ 32) = d"
proof -
  assume d: "0 \<le> d" "d < 2 ^ 32"
  have "((l + d) mod 2 ^ 32 - l) mod 2 ^ 32 = (l + d - l) mod 2 ^ 32"
    by (rule mod_diff_left_eq)
  with d show ?thesis by (simp add: tickDiff_def)
qed

lemma intervals_ticks_from:
  "list_all (\<lambda>d. 0 \<le> d \<and> d < 2 ^ 32) ds \<Longrightarrow> intervals l (ticks_from l ds) = ds"
proof (induction ds arbitrary: l)
  case Nil
  show ?case by simp
next
  case (Cons d ds)
  from Cons.prems have d: "0 \<le> d" "d < 2 ^ 32" and r: "list_all (\<lambda>d. 0 \<le> d \<and> d < 2 ^ 32) ds"
    by simp_all
  have "intervals l (ticks_from l (d # ds))
      = tickDiff l ((l + d) mod 2 ^ 32) # intervals ((l + d) mod 2 ^ 32) (ticks_from ((l + d) mod 2 ^ 32) ds)"
    by (simp only: ticks_from.simps Let_def intervals.simps)
  also have "\<dots> = d # ds"
    by (simp only: tickDiff_ticks_from [OF d] Cons.IH [OF r])
  finally show ?case .
qed

lemma length_ticks_from: "length (ticks_from l ds) = length ds"
  by (induction ds arbitrary: l) (simp_all add: Let_def)

lemma sample_pulses_facts:
  "length sample_pulses = 40"
  "list_all (\<lambda>d. 60 \<le> d \<and> d \<le> 150) sample_pulses"
  "be_bits (map (\<lambda>d. d > 100) sample_pulses) = 0x028C015FEE"
  by (simp_all add: sample_pulses_def be_bits_def)

lemma sample_frame_decodes:
  "checksum_ok 0x028C015FEE"
  "validated DHTXX 0x028C015FEE = (True, PyFloat (351 / 10), PyFloat (652 / 10))"
  by (simp_all add: checksum_ok_def frame_byte_def validated_simps validate_DHTXX_def Let_def)

lemma run_partial:
  assumes iv: "intervals (last_edge_tick s) ticks = gap # d1 # d2 # ds"
    and gap: "gap > 10000" and d1: "d1 \<le> 10000" and d2: "d2 \<le> 10000"
    and len: "length ds < 40" and val: "list_all valid_pulse ds"
  shows "run_edges s ticks =
           s\<lparr>last_edge_tick := last ticks, in_code := True, bits := int (length ds),
             code := be_bits (map one_bit ds)\<rparr>
         \<and> handoffs s ticks = []"
proof -
  from iv obtain tg ts0 where t0: "ticks = tg # ts0" "tickDiff (last_edge_tick s) tg = gap"
    "intervals tg ts0 = d1 # d2 # ds" using intervals_eq_Cons by blast
  from t0(3) obtain t1 ts1 where t1: "ts0 = t1 # ts1" "tickDiff tg t1 = d1"
    "intervals t1 ts1 = d2 # ds" using intervals_eq_Cons by blast
  from t1(3) obtain t2 dts where t2: "ts1 = t2 # dts" "tickDiff t1 t2 = d2"
    "intervals t2 dts = ds" using intervals_eq_Cons by blast
  have ldts: "length dts = length ds" using t2(3) length_intervals [of t2 dts] by simp
  let ?s1 = "s\<lparr>last_edge_tick := tg, in_code := True, bits := - 2, code := 0\<rparr>"
  let ?s2 = "s\<lparr>last_edge_tick := t1, in_code := True, bits := - 1, code := 0\<rparr>"
  let ?s3 = "s\<lparr>last_edge_tick := t2, in_code := True, bits := 0, code := 0\<rparr>"
  have e1: "rising_edge tg s = ?s1"
    using gap by (simp add: rising_edge_gap t0(2))
  have h1: "\<not> hands_off tg s"
    using gap by (simp add: hands_off_iff t0(2) valid_pulse_def)
  have e2: "rising_edge t1 ?s1 = ?s2"
    using d1 by (simp add: rising_edge_discard t1(2))
  have h2: "\<not> hands_off t1 ?s1" by (simp add: hands_off_iff)
  have e3: "rising_edge t2 ?s2 = ?s3"
    using d2 by (simp add: rising_edge_discard t2(2))
  have h3: "\<not> hands_off t2 ?s2" by (simp add: hands_off_iff)
  have r4: "run_edges ?s3 dts =
      s\<lparr>last_edge_tick := last (t2 # dts), in_code := True, bits := int (length ds),
        code := be_bits (map one_bit ds)\<rparr> \<and> handoffs ?s3 dts = []"
    using run_data [of ?s3 dts] val len ldts t2(3) by (simp del: last.simps)
  have lt: "last ticks = last (t2 # dts)" by (simp add: t0(1) t1(1) t2(1))
  show ?thesis
    unfolding lt
    by (simp add: t0(1) t1(1) t2(1) e1 e2 e3 r4 h1 h2 h3 Let_def del: last.simps)
qed

subsection \<open>Bytes of an accumulated frame\<close>

lemma frame_byte_be_bits:
  assumes "length ys = 8" "length zs = 8 * k"
  shows "frame_byte k (be_bits (xs @ ys @ zs)) = be_bits ys"
proof -
  define m :: int where "m = 2 ^ (8 * k)"
  have m: "0 < m" by (simp add: m_def)
  have z: "0 \<le> be_bits zs" "be_bits zs < m"
    using be_bits_range [of zs] assms(2) by (simp_all add: m_def)
  have y: "0 \<le> be_bits ys" "be_bits ys < 256"
    using be_bits_range [of ys] assms(1) by simp_all
  have "be_bits (xs @ ys @ zs) = (be_bits xs * 256 + be_bits ys) * m + be_bits zs"
    by (simp add: be_bits_append assms m_def power_add algebra_simps)
  then have "be_bits (xs @ ys @ zs) div m = be_bits xs * 256 + be_bits ys"
    using z m by simp
  then have "frame_byte k (be_bits (xs @ ys @ zs)) = (be_bits xs * 256 + be_bits ys) mod 256"
    by (simp add: frame_byte_def m_def)
  also have "\<dots> = be_bits ys" using y by simp
  finally show ?thesis .
qed

lemma frame_byte_of_40_bits:
  assumes "length bs = 40" "k \<le> 4"
  shows "frame_byte k (be_bits bs) = be_bits (take 8 (drop (32 - 8 * k) bs))"
proof -
  have "bs = take (32 - 8 * k) bs @ take 8 (drop (32 - 8 * k) bs) @ drop 8 (drop (32 - 8 * k) bs)"
    by (simp only: append_take_drop_id)
  moreover have "length (take 8 (drop (32 - 8 * k) bs)) = 8"
    and "length (drop 8 (drop (32 - 8 * k) bs)) = 8 * k"
    using assms by simp_all
  ultimately show ?thesis
    using frame_byte_be_bits
      [of "take 8 (drop (32 - 8 * k) bs)" "drop 8 (drop (32 - 8 * k) bs)" k
          "take (32 - 8 * k) bs"]
    by (simp del: drop_drop)
qed

subsection \<open>The reading across edges\<close>

lemma decode_values:
  "(temperature (decode_dhtxx s), humidity (decode_dhtxx s)) =
     (if status (decode_dhtxx s) = DHT_GOOD then snd (validated (model s) (code s))
      else (temperature s, humidity s))"
  by (simp add: status_decode values_decode)

lemma rising_edge_values:
  "(temperature (rising_edge t s), humidity (rising_edge t s)) =
     (if hands_off t s \<and> status (rising_edge t s) = DHT_GOOD
      then snd (validated (model s) (code (rising_edge t s)))
      else (temperature s, humidity s))"
proof (cases "hands_off t s")
  case True
  then have h: "in_code s" "bits s = 39" "valid_pulse (tickDiff (last_edge_tick s) t)"
    by (simp_all add: hands_off_iff)
  define x where "x = s\<lparr>last_edge_tick := t, bits := 40,
        code := 2 * code s + (if one_bit (tickDiff (last_edge_tick s) t) then 1 else 0)\<rparr>"
  have e: "rising_edge t s = (decode_dhtxx x)\<lparr>in_code := False\<rparr>"
    unfolding x_def using h by (rule rising_edge_last_bit)
  have fx: "model x = model s" "temperature x = temperature s" "humidity x = humidity s"
    by (simp_all add: x_def)
  show ?thesis
    using decode_values [of x] True by (simp add: e decode_other_fields fx)
next
  case False
  then show ?thesis using rising_edge_keeps_reading [of t s] by simp
qed

lemma rising_edge_new_data:
  "new_data (rising_edge t s) = (new_data s \<or> hands_off t s)"
proof (cases "hands_off t s")
  case True
  then have h: "in_code s" "bits s = 39" "valid_pulse (tickDiff (last_edge_tick s) t)"
    by (simp_all add: hands_off_iff)
  show ?thesis using True by (simp add: rising_edge_last_bit [OF h] decode_other_fields)
next
  case False
  then show ?thesis using rising_edge_keeps_reading [of t s] by simp
qed

lemma run_edges_config:
  "model (run_edges s ticks) = model s" "gpio (run_edges s ticks) = gpio s"
  "callback (run_edges s ticks) = callback s" "timestamp (run_edges s ticks) = timestamp s"
  by (induction ticks arbitrary: s) (simp_all add: rising_edge_config)

lemma run_edges_new_data:
  "new_data (run_edges s ticks) = (new_data s \<or> handoffs s ticks \<noteq> [])"
  by (induction ticks arbitrary: s) (auto simp add: rising_edge_new_data Let_def)

lemma run_edges_quiet:
  "handoffs s ticks = [] \<Longrightarrow>
   status (run_edges s ticks) = status s \<and> new_data (run_edges s ticks) = new_data s
   \<and> temperature (run_edges s ticks) = temperature s
   \<and> humidity (run_edges s ticks) = humidity s"
proof (induction ticks arbitrary: s)
  case Nil
  show ?case by simp
next
  case (Cons t ts)
  from Cons.prems have n: "\<not> hands_off t s" and r: "handoffs (rising_edge t s) ts = []"
    by (simp_all add: Let_def split: if_splits)
  from Cons.IH [OF r] rising_edge_keeps_reading [OF n] show ?case by simp
qed

lemma run_edges_values:
  "(temperature (run_edges s ticks), humidity (run_edges s ticks)) =
     last_good (model s) (temperature s, humidity s) (handoffs s ticks)"
proof (induction ticks arbitrary: s)
  case Nil
  show ?case by simp
next
  case (Cons t ts)
  have "(temperature (run_edges s (t # ts)), humidity (run_edges s (t # ts))) =
      last_good (model s) (temperature (rising_edge t s), humidity (rising_edge t s))
        (handoffs (rising_edge t s) ts)"
    using Cons.IH [of "rising_edge t s"] by (simp add: rising_edge_config)
  then show ?case
    by (simp add: rising_edge_values [of t s] Let_def)
qed

lemma last_good_none:
  "list_all (\<lambda>h. snd h \<noteq> DHT_GOOD) hs \<Longrightarrow> last_good m v hs = v"
  by (induction hs arbitrary: v) simp_all

subsection \<open>The polling loop\<close>

lemma wait_loop_run:
  "wait_loop n arrivals s = (s', k) \<Longrightarrow>
   k \<le> n \<and> s' = run_edges s (concat (take k arrivals))"
proof (induction n arbitrary: arrivals s s' k)
  case 0
  then show ?case by simp
next
  case (Suc n)
  define first where "first = (case arrivals of [] \<Rightarrow> [] | ticks # _ \<Rightarrow> ticks)"
  define s1 where "s1 = run_edges s first"
  have tk: "\<And>j. concat (take (Suc j) arrivals) = first @ concat (take j (tl arrivals))"
    by (cases arrivals) (simp_all add: first_def)
  show ?case
  proof (cases "new_data s1")
    case True
    with Suc.prems have "s' = s1" "k = 1"
      by (simp_all add: Let_def s1_def first_def)
    then show ?thesis using tk [of 0] by (simp add: s1_def)
  next
    case False
    obtain s2 j where w: "wait_loop n (tl arrivals) s1 = (s2, j)"
      by (cases "wait_loop n (tl arrivals) s1")
    with Suc.prems False have r: "s' = s2" "k = Suc j"
      by (simp_all add: Let_def s1_def first_def)
    from Suc.IH [OF w] have "j \<le> n" "s2 = run_edges s1 (concat (take j (tl arrivals)))"
      by simp_all
    then show ?thesis
      using r by (simp add: tk s1_def run_edges_append)
  qed
qed

lemma wait_loop_quiet:
  "\<not> new_data s \<Longrightarrow> handoffs s (concat (take n arrivals)) = [] \<Longrightarrow>
   wait_loop n arrivals s = (run_edges s (concat (take n arrivals)), n)"
proof (induction n arbitrary: arrivals s)
  case 0
  show ?case by simp
next
  case (Suc n)
  define first where "first = (case arrivals of [] \<Rightarrow> [] | ticks # _ \<Rightarrow> ticks)"
  define s1 where "s1 = run_edges s first"
  have tk: "concat (take (Suc n) arrivals) = first @ concat (take n (tl arrivals))"
    by (cases arrivals) (simp_all add: first_def)
  from Suc.prems(2) have h: "handoffs s first = []"
    "handoffs s1 (concat (take n (tl arrivals))) = []"
    by (simp_all add: tk handoffs_append s1_def)
  from h(1) Suc.prems(1) have n1: "\<not> new_data s1"
    by (simp add: s1_def run_edges_new_data)
  from Suc.IH [OF n1 h(2)] n1 show ?case
    by (simp add: Let_def s1_def [symmetric] first_def [symmetric] tk run_edges_append)
qed

lemma wait_loop_first:
  "new_data (run_edges s ticks) \<Longrightarrow>
   wait_loop (Suc n) (ticks # rest) s = (run_edges s ticks, 1)"
  by (simp add: Let_def)

lemma read_unfold:
  "wait_loop 5 arrivals (trigger now s) = (s2, k) \<Longrightarrow>
   read now arrivals s =
     \<lparr> returned = datum s2, calls = (if callback s2 then [datum s2] else []),
       sleeps = k, sensor_after = s2 \<rparr>"
  by (simp add: read_def Let_def)

lemma trigger_fields:
  "status (trigger now s) = DHT_TIMEOUT" "\<not> new_data (trigger now s)"
  "timestamp (trigger now s) = now" "gpio (trigger now s) = gpio s"
  "model (trigger now s) = model s" "callback (trigger now s) = callback s"
  "temperature (trigger now s) = temperature s" "humidity (trigger now s) = humidity s"
  "in_code (trigger now s) = in_code s" "bits (trigger now s) = bits s"
  "code (trigger now s) = code s" "last_edge_tick (trigger now s) = last_edge_tick s"
  by (simp_all add: trigger_def)

lemma read_result:
  "read now arrivals s =
     \<lparr> returned = datum (fst (wait_loop 5 arrivals (trigger now s))),
       calls = (if callback s then [datum (fst (wait_loop 5 arrivals (trigger now s)))] else []),
       sleeps = snd (wait_loop 5 arrivals (trigger now s)),
       sensor_after = fst (wait_loop 5 arrivals (trigger now s)) \<rparr>"
proof -
  obtain s2 k where w: "wait_loop 5 arrivals (trigger now s) = (s2, k)"
    by (cases "wait_loop 5 arrivals (trigger now s)")
  from wait_loop_run [OF w] have "callback s2 = callback s"
    by (simp add: run_edges_config trigger_fields)
  then show ?thesis by (simp add: read_unfold [OF w] w)
qed

lemma read_run:
  "sleeps (read now arrivals s) \<le> 5"
  "sensor_after (read now arrivals s) =
     run_edges (trigger now s) (concat (take (sleeps (read now arrivals s)) arrivals))"
  "returned (read now arrivals s) = datum (sensor_after (read now arrivals s))"
proof -
  obtain s2 k where w: "wait_loop 5 arrivals (trigger now s) = (s2, k)"
    by (cases "wait_loop 5 arrivals (trigger now s)")
  from wait_loop_run [OF w] show "sleeps (read now arrivals s) \<le> 5"
    and "sensor_after (read now arrivals s) =
     run_edges (trigger now s) (concat (take (sleeps (read now arrivals s)) arrivals))"
    by (simp_all add: read_result w)
  show "returned (read now arrivals s) = datum (sensor_after (read now arrivals s))"
    by (simp add: read_result)
qed

section \<open>The claims\<close>

text \<open>
  C1. For every edge the handler processes, with \<open>d\<close> the interval since the last
  edge: an interval above 10000 microseconds (re)starts a frame (\<open>in_code\<close>,
  \<open>bits = -2\<close>, \<open>code = 0\<close>) and silently drops a frame in progress; below that,
  the two edges after the start are consumed without a data bit; each later interval
  in \<open>[60, 150]\<close> shifts the accumulator left and appends a 1 exactly when the
  interval is above 100; an interval outside \<open>[60, 150]\<close> aborts the frame (no
  frame handed over, reading unchanged), and a later long gap starts a fresh frame.
  A long gap, two discard intervals and 40 valid data intervals leave the
  accumulator equal to the big-endian value of the 40 classified bits, handed to
  \<open>_decode_dhtxx\<close> exactly once.
\<close>

theorem edge_handler_frames:
  "(let d = tickDiff (last_edge_tick s) tick; s' = rising_edge tick s
    in (d > 10000 \<longrightarrow>
          in_code s' \<and> bits s' = - 2 \<and> code s' = 0
          \<and> \<not> hands_off tick s \<and> datum s' = datum s \<and> new_data s' = new_data s)
       \<and> (d \<le> 10000 \<and> in_code s \<and> bits s < 0 \<longrightarrow>
            in_code s' \<and> bits s' = bits s + 1 \<and> code s' = code s \<and> \<not> hands_off tick s)
       \<and> (in_code s \<and> 0 \<le> bits s \<and> 60 \<le> d \<and> d \<le> 150 \<longrightarrow>
            bits s' = bits s + 1
            \<and> code s' = push_bit 1 (code s) + (if d > 100 then 1 else 0))
       \<and> (d \<le> 10000 \<and> in_code s \<and> 0 \<le> bits s \<and> \<not> (60 \<le> d \<and> d \<le> 150) \<longrightarrow>
            \<not> in_code s' \<and> \<not> hands_off tick s
            \<and> datum s' = datum s \<and> new_data s' = new_data s
            \<and> (tickDiff tick tick' > 10000 \<longrightarrow>
                  in_code (rising_edge tick' s') \<and> bits (rising_edge tick' s') = - 2
                  \<and> code (rising_edge tick' s') = 0)))
   \<and> (intervals (last_edge_tick s) ticks = gap # d1 # d2 # ds
        \<and> gap > 10000 \<and> d1 \<le> 10000 \<and> d2 \<le> 10000
        \<and> length ds = 40 \<and> list_all (\<lambda>d. 60 \<le> d \<and> d \<le> 150) ds \<longrightarrow>
        run_edges s ticks =
          (decode_dhtxx (s\<lparr>last_edge_tick := last ticks, in_code := True, bits := 40,
                            code := be_bits (map (\<lambda>d. d > 100) ds)\<rparr>))\<lparr>in_code := False\<rparr>
        \<and> map fst (handoffs s ticks) = [be_bits (map (\<lambda>d. d > 100) ds)])"
proof -
  let ?d = "tickDiff (last_edge_tick s) tick"
  let ?s' = "rising_edge tick s"
  have restart: "?d > 10000 \<longrightarrow>
          in_code ?s' \<and> bits ?s' = - 2 \<and> code ?s' = 0
          \<and> \<not> hands_off tick s \<and> datum ?s' = datum s \<and> new_data ?s' = new_data s"
    by (simp add: rising_edge_gap hands_off_iff valid_pulse_def datum_def)
  have discard: "?d \<le> 10000 \<and> in_code s \<and> bits s < 0 \<longrightarrow>
            in_code ?s' \<and> bits ?s' = bits s + 1 \<and> code ?s' = code s \<and> \<not> hands_off tick s"
    by (simp add: rising_edge_discard hands_off_iff)
  have data: "in_code s \<and> 0 \<le> bits s \<and> 60 \<le> ?d \<and> ?d \<le> 150 \<longrightarrow>
            bits ?s' = bits s + 1
            \<and> code ?s' = push_bit 1 (code s) + (if ?d > 100 then 1 else 0)"
  proof (cases "bits s = 39")
    case True
    then show ?thesis
      by (simp add: rising_edge_last_bit valid_pulse_def one_bit_def decode_other_fields)
  next
    case False
    then show ?thesis
      by (simp add: rising_edge_bit valid_pulse_def one_bit_def)
  qed
  have abort: "?d \<le> 10000 \<and> in_code s \<and> 0 \<le> bits s \<and> \<not> (60 \<le> ?d \<and> ?d \<le> 150) \<longrightarrow>
            \<not> in_code ?s' \<and> \<not> hands_off tick s
            \<and> datum ?s' = datum s \<and> new_data ?s' = new_data s
            \<and> (tickDiff tick tick' > 10000 \<longrightarrow>
                  in_code (rising_edge tick' ?s') \<and> bits (rising_edge tick' ?s') = - 2
                  \<and> code (rising_edge tick' ?s') = 0)"
  proof
    assume a: "?d \<le> 10000 \<and> in_code s \<and> 0 \<le> bits s \<and> \<not> (60 \<le> ?d \<and> ?d \<le> 150)"
    then have e: "?s' = s\<lparr>last_edge_tick := tick, bits := bits s + 1, code := 2 * code s,
                           in_code := False\<rparr>"
      using rising_edge_abort [of s tick] by (simp add: valid_pulse_def)
    have "tickDiff tick tick' > 10000 \<longrightarrow>
                  in_code (rising_edge tick' ?s') \<and> bits (rising_edge tick' ?s') = - 2
                  \<and> code (rising_edge tick' ?s') = 0"
      by (simp add: rising_edge_gap rising_edge_config)
    moreover have "\<not> hands_off tick s" using a by (simp add: hands_off_iff valid_pulse_def)
    ultimately show "\<not> in_code ?s' \<and> \<not> hands_off tick s
            \<and> datum ?s' = datum s \<and> new_data ?s' = new_data s
            \<and> (tickDiff tick tick' > 10000 \<longrightarrow>
                  in_code (rising_edge tick' ?s') \<and> bits (rising_edge tick' ?s') = - 2
                  \<and> code (rising_edge tick' ?s') = 0)"
      by (simp add: e datum_def)
  qed
  have frame: "intervals (last_edge_tick s) ticks = gap # d1 # d2 # ds
        \<and> gap > 10000 \<and> d1 \<le> 10000 \<and> d2 \<le> 10000
        \<and> length ds = 40 \<and> list_all (\<lambda>d. 60 \<le> d \<and> d \<le> 150) ds \<longrightarrow>
        run_edges s ticks =
          (decode_dhtxx (s\<lparr>last_edge_tick := last ticks, in_code := True, bits := 40,
                            code := be_bits (map (\<lambda>d. d > 100) ds)\<rparr>))\<lparr>in_code := False\<rparr>
        \<and> map fst (handoffs s ticks) = [be_bits (map (\<lambda>d. d > 100) ds)]"
  proof
    assume a: "intervals (last_edge_tick s) ticks = gap # d1 # d2 # ds
        \<and> gap > 10000 \<and> d1 \<le> 10000 \<and> d2 \<le> 10000
        \<and> length ds = 40 \<and> list_all (\<lambda>d. 60 \<le> d \<and> d \<le> 150) ds"
    have v: "valid_pulse = (\<lambda>d. 60 \<le> d \<and> d \<le> 150)" and o: "one_bit = (\<lambda>d. d > 100)"
      by (simp_all add: fun_eq_iff valid_pulse_def one_bit_def)
    from a have "run_edges s ticks =
           (decode_dhtxx (s\<lparr>last_edge_tick := last ticks, in_code := True, bits := 40,
                             code := be_bits (map one_bit ds)\<rparr>))\<lparr>in_code := False\<rparr>
         \<and> handoffs s ticks = [(be_bits (map one_bit ds), status (run_edges s ticks))]"
      by (intro run_frame [of s ticks gap d1 d2 ds]) (simp_all add: v)
    then show "run_edges s ticks =
          (decode_dhtxx (s\<lparr>last_edge_tick := last ticks, in_code := True, bits := 40,
                            code := be_bits (map (\<lambda>d. d > 100) ds)\<rparr>))\<lparr>in_code := False\<rparr>
        \<and> map fst (handoffs s ticks) = [be_bits (map (\<lambda>d. d > 100) ds)]"
      unfolding o by simp
  qed
  from restart discard data abort frame show ?thesis
    unfolding Let_def by blast
qed

theorem edge_handler_frames_witness:
  "code (run_edges (init 4 DHTXX False 0 0)
           (ticks_from (- 10000) (15000 # 80 # 80 # sample_pulses))) = 0x028C015FEE
   \<and> datum (run_edges (init 4 DHTXX False 0 0)
           (ticks_from (- 10000) (15000 # 80 # 80 # sample_pulses)))
       = (0, 4, DHT_GOOD, PyFloat (351 / 10), PyFloat (652 / 10))
   \<and> map fst (handoffs (init 4 DHTXX False 0 0)
           (ticks_from (- 10000) (15000 # 80 # 80 # sample_pulses))) = [0x028C015FEE]
   \<and> \<not> in_code (rising_edge 1200
           ((init 4 DHTXX False 0 0)\<lparr>in_code := True, bits := 5, code := 9,
                                       last_edge_tick := 1000\<rparr>))
   \<and> bits (rising_edge 20000 (rising_edge 1200
           ((init 4 DHTXX False 0 0)\<lparr>in_code := True, bits := 5, code := 9,
                                       last_edge_tick := 1000\<rparr>))) = - 2"
proof -
  define s0 where "s0 = init 4 DHTXX False 0 0"
  define ticks where "ticks = ticks_from (- 10000) (15000 # 80 # 80 # sample_pulses)"
  define sm where "sm = (init 4 DHTXX False 0 0)\<lparr>in_code := True, bits := 5, code := 9,
                                       last_edge_tick := 1000\<rparr>"
  have f0: "last_edge_tick s0 = - 10000" "model s0 = DHTXX" "timestamp s0 = 0" "gpio s0 = 4"
    by (simp_all add: s0_def init_def)
  have iv: "intervals (last_edge_tick s0) ticks = 15000 # 80 # 80 # sample_pulses"
    unfolding f0 ticks_def
    by (rule intervals_ticks_from) (simp add: sample_pulses_def)
  have "run_edges s0 ticks =
          (decode_dhtxx (s0\<lparr>last_edge_tick := last ticks, in_code := True, bits := 40,
                            code := 0x028C015FEE\<rparr>))\<lparr>in_code := False\<rparr>
        \<and> map fst (handoffs s0 ticks) = [0x028C015FEE]"
    using edge_handler_frames [of s0 0 0 ticks 15000 80 80 sample_pulses] iv
    by (simp add: sample_pulses_facts Let_def)
  then have frame: "code (run_edges s0 ticks) = 0x028C015FEE"
    "datum (run_edges s0 ticks) = (0, 4, DHT_GOOD, PyFloat (351 / 10), PyFloat (652 / 10))"
    "map fst (handoffs s0 ticks) = [0x028C015FEE]"
    by (simp_all add: datum_def decode_other_fields status_decode values_decode f0
        sample_frame_decodes)
  have fm: "tickDiff (last_edge_tick sm) 1200 = 200" "in_code sm" "bits sm = 5"
    "tickDiff 1200 20000 = 18800"
    by (simp_all add: sm_def tickDiff_def)
  have "\<not> in_code (rising_edge 1200 sm) \<and> bits (rising_edge 20000 (rising_edge 1200 sm)) = - 2"
    using edge_handler_frames [of sm 1200 20000 "[]" 0 0 0 "[]"]
    by (simp add: fm Let_def)
  with frame show ?thesis
    unfolding s0_def ticks_def sm_def by blast
qed

text \<open>
  C2. For every frame and every configured model, interpretation gives the status
  \<open>DHT_BAD_CHECKSUM\<close> if and only if \<open>b0\<close> differs from
  \<open>(b1 + b2 + b3 + b4) mod 256\<close>, \<open>b0\<close> being the low byte of the word. In
  particular, for the frame assembled from any five bytes, the status is never
  \<open>DHT_BAD_CHECKSUM\<close> when \<open>b0\<close> is that sum and always \<open>DHT_BAD_CHECKSUM\<close>
  when it is not, whatever the model of the sensor \<open>s\<close>.
\<close>

theorem decode_bad_checksum_iff:
  "(status (decode_dhtxx s) = DHT_BAD_CHECKSUM \<longleftrightarrow>
      frame_byte 0 (code s) \<noteq>
        (frame_byte 1 (code s) + frame_byte 2 (code s) + frame_byte 3 (code s)
          + frame_byte 4 (code s)) mod 256)
   \<and> (is_byte b0 \<and> is_byte b1 \<and> is_byte b2 \<and> is_byte b3 \<and> is_byte b4 \<longrightarrow>
        (status (decode_dhtxx (s\<lparr>code := frame_of_bytes b0 b1 b2 b3 b4\<rparr>)) = DHT_BAD_CHECKSUM
           \<longleftrightarrow> b0 \<noteq> (b1 + b2 + b3 + b4) mod 256))"
proof (intro conjI impI)
  show "status (decode_dhtxx s) = DHT_BAD_CHECKSUM \<longleftrightarrow>
      frame_byte 0 (code s) \<noteq>
        (frame_byte 1 (code s) + frame_byte 2 (code s) + frame_byte 3 (code s)
          + frame_byte 4 (code s)) mod 256"
    by (auto simp add: status_decode checksum_ok_def)
next
  assume a: "is_byte b0 \<and> is_byte b1 \<and> is_byte b2 \<and> is_byte b3 \<and> is_byte b4"
  then have "checksum_ok (frame_of_bytes b0 b1 b2 b3 b4) \<longleftrightarrow> (b1 + b2 + b3 + b4) mod 256 = b0"
    by (simp add: checksum_ok_def frame_byte_frame_of_bytes)
  then show "status (decode_dhtxx (s\<lparr>code := frame_of_bytes b0 b1 b2 b3 b4\<rparr>)) = DHT_BAD_CHECKSUM
           \<longleftrightarrow> b0 \<noteq> (b1 + b2 + b3 + b4) mod 256"
    by (auto simp add: status_decode)
qed

theorem decode_bad_checksum_iff_witness:
  "status (decode_dhtxx ((init 4 DHTAUTO False 0 0)\<lparr>code := frame_of_bytes 150 0 60 0 90\<rparr>))
     \<noteq> DHT_BAD_CHECKSUM
   \<and> status (decode_dhtxx ((init 4 DHT11 False 0 0)\<lparr>code := frame_of_bytes 151 0 60 0 90\<rparr>))
     = DHT_BAD_CHECKSUM"
  using decode_bad_checksum_iff [of "init 4 DHTAUTO False 0 0" 150 0 60 0 90]
    decode_bad_checksum_iff [of "init 4 DHT11 False 0 0" 151 0 60 0 90]
  by (simp add: is_byte_def)

text \<open>
  C5. For every checksum-valid frame interpreted under the model \<open>DHT11\<close>, the
  temperature is \<open>b2\<close> and the humidity \<open>b4\<close>, as integers; the status is
  \<open>DHT_GOOD\<close> if and only if \<open>b1 = 0\<close>, \<open>b3 = 0\<close>, \<open>b2 \<le> 60\<close> and
  \<open>9 \<le> b4 \<le> 90\<close>, and \<open>DHT_BAD_DATA\<close> otherwise; a good reading stores these two
  integers. At the boundary, the bytes \<open>(0, 60, 0, 90)\<close> with their checksum give
  \<open>DHT_GOOD\<close> with temperature 60 and humidity 90, and \<open>(0, 61, 0, 90)\<close> give
  \<open>DHT_BAD_DATA\<close>.
\<close>

theorem decode_DHT11:
  "(model s = DHT11 \<and> checksum_ok (code s) \<longrightarrow>
      validate_DHT11 (frame_byte 1 (code s)) (frame_byte 2 (code s))
          (frame_byte 3 (code s)) (frame_byte 4 (code s))
        = (frame_byte 1 (code s) = 0 \<and> frame_byte 3 (code s) = 0
             \<and> frame_byte 2 (code s) \<le> 60
             \<and> 9 \<le> frame_byte 4 (code s) \<and> frame_byte 4 (code s) \<le> 90,
           PyInt (frame_byte 2 (code s)), PyInt (frame_byte 4 (code s)))
      \<and> status (decode_dhtxx s) =
          (if frame_byte 1 (code s) = 0 \<and> frame_byte 3 (code s) = 0
                \<and> frame_byte 2 (code s) \<le> 60
                \<and> 9 \<le> frame_byte 4 (code s) \<and> frame_byte 4 (code s) \<le> 90
           then DHT_GOOD else DHT_BAD_DATA)
      \<and> (status (decode_dhtxx s) = DHT_GOOD \<longrightarrow>
            temperature (decode_dhtxx s) = PyInt (frame_byte 2 (code s))
            \<and> humidity (decode_dhtxx s) = PyInt (frame_byte 4 (code s))))
   \<and> datum (decode_dhtxx (s\<lparr>model := DHT11, code := frame_of_bytes 150 0 60 0 90\<rparr>))
        = (timestamp s, gpio s, DHT_GOOD, PyInt 60, PyInt 90)
   \<and> status (decode_dhtxx (s\<lparr>model := DHT11, code := frame_of_bytes 151 0 61 0 90\<rparr>))
        = DHT_BAD_DATA"
proof (intro conjI impI)
  assume a: "model s = DHT11 \<and> checksum_ok (code s)"
  show "validate_DHT11 (frame_byte 1 (code s)) (frame_byte 2 (code s))
          (frame_byte 3 (code s)) (frame_byte 4 (code s))
        = (frame_byte 1 (code s) = 0 \<and> frame_byte 3 (code s) = 0
             \<and> frame_byte 2 (code s) \<le> 60
             \<and> 9 \<le> frame_byte 4 (code s) \<and> frame_byte 4 (code s) \<le> 90,
           PyInt (frame_byte 2 (code s)), PyInt (frame_byte 4 (code s)))"
    by (rule validate_DHT11_eq)
  from a show "status (decode_dhtxx s) =
          (if frame_byte 1 (code s) = 0 \<and> frame_byte 3 (code s) = 0
                \<and> frame_byte 2 (code s) \<le> 60
                \<and> 9 \<le> frame_byte 4 (code s) \<and> frame_byte 4 (code s) \<le> 90
           then DHT_GOOD else DHT_BAD_DATA)"
    by (simp add: status_decode validated_simps validate_DHT11_eq)
  assume "status (decode_dhtxx s) = DHT_GOOD"
  with a show "temperature (decode_dhtxx s) = PyInt (frame_byte 2 (code s))"
    and "humidity (decode_dhtxx s) = PyInt (frame_byte 4 (code s))"
    by (simp_all add: status_decode values_decode validated_simps validate_DHT11_eq
        split: if_splits)
next
  have b: "is_byte 150" "is_byte 0" "is_byte 60" "is_byte 90" by (simp_all add: is_byte_def)
  have ok: "checksum_ok (frame_of_bytes 150 0 60 0 90)"
    by (simp add: checksum_ok_def frame_byte_frame_of_bytes b)
  show "datum (decode_dhtxx (s\<lparr>model := DHT11, code := frame_of_bytes 150 0 60 0 90\<rparr>))
        = (timestamp s, gpio s, DHT_GOOD, PyInt 60, PyInt 90)"
    by (simp add: datum_def status_decode values_decode decode_other_fields validated_simps
        validate_DHT11_eq ok frame_byte_frame_of_bytes b)
next
  have b: "is_byte 151" "is_byte 0" "is_byte 61" "is_byte 90" by (simp_all add: is_byte_def)
  have ok: "checksum_ok (frame_of_bytes 151 0 61 0 90)"
    by (simp add: checksum_ok_def frame_byte_frame_of_bytes b)
  show "status (decode_dhtxx (s\<lparr>model := DHT11, code := frame_of_bytes 151 0 61 0 90\<rparr>))
        = DHT_BAD_DATA"
    by (simp add: status_decode validated_simps validate_DHT11_eq ok frame_byte_frame_of_bytes b)
qed

theorem decode_DHT11_witness:
  "status (decode_dhtxx ((init 4 DHT11 False 0 0)\<lparr>code := frame_of_bytes 49 0 9 0 40\<rparr>)) = DHT_GOOD
   \<and> temperature (decode_dhtxx ((init 4 DHT11 False 0 0)\<lparr>code := frame_of_bytes 49 0 9 0 40\<rparr>))
       = PyInt 9
   \<and> humidity (decode_dhtxx ((init 4 DHT11 False 0 0)\<lparr>code := frame_of_bytes 49 0 9 0 40\<rparr>))
       = PyInt 40"
proof -
  have b: "is_byte 49" "is_byte 0" "is_byte 9" "is_byte 40" by (simp_all add: is_byte_def)
  have c: "code ((init 4 DHT11 False 0 0)\<lparr>code := frame_of_bytes 49 0 9 0 40\<rparr>)
             = frame_of_bytes 49 0 9 0 40"
    and m: "model ((init 4 DHT11 False 0 0)\<lparr>code := frame_of_bytes 49 0 9 0 40\<rparr>) = DHT11"
    by (simp_all add: init_def)
  have ok: "checksum_ok (frame_of_bytes 49 0 9 0 40)"
    by (simp add: checksum_ok_def frame_byte_frame_of_bytes b)
  show ?thesis
    using decode_DHT11 [of "(init 4 DHT11 False 0 0)\<lparr>code := frame_of_bytes 49 0 9 0 40\<rparr>"]
    unfolding c m
    by (simp add: ok frame_byte_frame_of_bytes b)
qed

text \<open>
  C3. For every checksum-valid frame interpreted under the model \<open>DHTXX\<close>, the
  temperature is \<open>((b2 AND 0x7F) << 8 OR b1) / 10\<close>, negated exactly when bit 7 of
  \<open>b2\<close> is set, and the humidity is \<open>((b4 << 8) OR b3) / 10\<close>; the status is
  \<open>DHT_GOOD\<close> if and only if the humidity is at most 110 and the temperature lies
  between -50 and 135, and \<open>DHT_BAD_DATA\<close> otherwise; a good reading stores the two
  values. In particular \<open>b2 = 0x81\<close>, \<open>b1 = 0x90\<close> decode to the temperature -40.
\<close>

theorem decode_DHTXX:
  "(model s = DHTXX \<and> checksum_ok (code s) \<longrightarrow>
     (let b1 = frame_byte 1 (code s); b2 = frame_byte 2 (code s);
          b3 = frame_byte 3 (code s); b4 = frame_byte 4 (code s);
          m = real_of_int (push_bit 8 (b2 AND 0x7F) OR b1) / 10;
          t = (if bit b2 7 then - m else m);
          h = real_of_int (push_bit 8 b4 OR b3) / 10
      in validate_DHTXX b1 b2 b3 b4 = (h \<le> 110 \<and> - 50 \<le> t \<and> t \<le> 135, PyFloat t, PyFloat h)
         \<and> status (decode_dhtxx s) =
             (if h \<le> 110 \<and> - 50 \<le> t \<and> t \<le> 135 then DHT_GOOD else DHT_BAD_DATA)
         \<and> (status (decode_dhtxx s) = DHT_GOOD \<longrightarrow>
               temperature (decode_dhtxx s) = PyFloat t
               \<and> humidity (decode_dhtxx s) = PyFloat h)))
   \<and> fst (snd (validate_DHTXX 0x90 0x81 b3' b4')) = PyFloat (- 40)"
proof (intro conjI impI)
  assume a: "model s = DHTXX \<and> checksum_ok (code s)"
  define b1 b2 b3 b4 where b: "b1 = frame_byte 1 (code s)" "b2 = frame_byte 2 (code s)"
    "b3 = frame_byte 3 (code s)" "b4 = frame_byte 4 (code s)"
  define m t h where mth: "m = real_of_int (push_bit 8 (b2 AND 0x7F) OR b1) / 10"
    "t = (if bit b2 7 then - m else m)" "h = real_of_int (push_bit 8 b4 OR b3) / 10"
  have by1: "is_byte b1" and by3: "is_byte b3"
    by (simp_all add: b is_byte_frame_byte)
  have v: "validate_DHTXX b1 b2 b3 b4 = (h \<le> 110 \<and> - 50 \<le> t \<and> t \<le> 135, PyFloat t, PyFloat h)"
    unfolding validate_DHTXX_eq [OF by1 by3] mth Let_def ..
  have vd: "validated DHTXX (code s) = validate_DHTXX b1 b2 b3 b4"
    by (simp add: validated_simps b)
  have st: "status (decode_dhtxx s) =
             (if h \<le> 110 \<and> - 50 \<le> t \<and> t \<le> 135 then DHT_GOOD else DHT_BAD_DATA)"
    using a by (simp add: status_decode vd v)
  have vals: "status (decode_dhtxx s) = DHT_GOOD \<longrightarrow>
               temperature (decode_dhtxx s) = PyFloat t \<and> humidity (decode_dhtxx s) = PyFloat h"
    using a by (simp add: status_decode values_decode vd v)
  from v st vals show "let b1 = frame_byte 1 (code s); b2 = frame_byte 2 (code s);
          b3 = frame_byte 3 (code s); b4 = frame_byte 4 (code s);
          m = real_of_int (push_bit 8 (b2 AND 0x7F) OR b1) / 10;
          t = (if bit b2 7 then - m else m);
          h = real_of_int (push_bit 8 b4 OR b3) / 10
      in validate_DHTXX b1 b2 b3 b4 = (h \<le> 110 \<and> - 50 \<le> t \<and> t \<le> 135, PyFloat t, PyFloat h)
         \<and> status (decode_dhtxx s) =
             (if h \<le> 110 \<and> - 50 \<le> t \<and> t \<le> 135 then DHT_GOOD else DHT_BAD_DATA)
         \<and> (status (decode_dhtxx s) = DHT_GOOD \<longrightarrow>
               temperature (decode_dhtxx s) = PyFloat t
               \<and> humidity (decode_dhtxx s) = PyFloat h)"
    unfolding Let_def b mth by blast
next
  show "fst (snd (validate_DHTXX 0x90 0x81 b3' b4')) = PyFloat (- 40)"
    by (simp add: validate_DHTXX_def Let_def)
qed

theorem decode_DHTXX_witness:
  "datum (decode_dhtxx ((init 4 DHTXX False 0 0)\<lparr>code := frame_of_bytes 6 0x90 0x81 0xF4 1\<rparr>))
     = (0, 4, DHT_GOOD, PyFloat (- 40), PyFloat 50)"
proof -
  have b: "is_byte 6" "is_byte 0x90" "is_byte 0x81" "is_byte 0xF4" "is_byte 1"
    by (simp_all add: is_byte_def)
  have c: "code ((init 4 DHTXX False 0 0)\<lparr>code := frame_of_bytes 6 0x90 0x81 0xF4 1\<rparr>)
             = frame_of_bytes 6 0x90 0x81 0xF4 1"
    and m: "model ((init 4 DHTXX False 0 0)\<lparr>code := frame_of_bytes 6 0x90 0x81 0xF4 1\<rparr>) = DHTXX"
    by (simp_all add: init_def)
  have ok: "checksum_ok (frame_of_bytes 6 0x90 0x81 0xF4 1)"
    by (simp add: checksum_ok_def frame_byte_frame_of_bytes b)
  have o: "timestamp (decode_dhtxx ((init 4 DHTXX False 0 0)\<lparr>code := frame_of_bytes 6 0x90 0x81 0xF4 1\<rparr>)) = 0"
    "gpio (decode_dhtxx ((init 4 DHTXX False 0 0)\<lparr>code := frame_of_bytes 6 0x90 0x81 0xF4 1\<rparr>)) = 4"
    by (simp_all add: decode_other_fields init_def)
  show ?thesis
    using decode_DHTXX [of "(init 4 DHTXX False 0 0)\<lparr>code := frame_of_bytes 6 0x90 0x81 0xF4 1\<rparr>"]
    unfolding c m datum_def o
    by (simp add: ok frame_byte_frame_of_bytes b Let_def)
qed

text \<open>
  C4. For every checksum-valid frame interpreted under the model \<open>DHTAUTO\<close>, the
  \<open>DHTXX\<close> interpretation is tried first, and the \<open>DHT11\<close> interpretation is
  applied to the same bytes exactly when the \<open>DHTXX\<close> one is invalid: the sensor
  after decoding is the one the model \<open>DHTXX\<close> gives when that interpretation is
  valid, and the one the model \<open>DHT11\<close> gives otherwise. So bytes valid under both
  give the \<open>DHTXX\<close> result, and the status is \<open>DHT_BAD_DATA\<close> only when both
  interpretations are invalid.
\<close>

theorem decode_AUTO:
  "model s = DHTAUTO \<and> checksum_ok (code s) \<longrightarrow>
     (let b1 = frame_byte 1 (code s); b2 = frame_byte 2 (code s);
          b3 = frame_byte 3 (code s); b4 = frame_byte 4 (code s)
      in decode_dhtxx s =
           (if fst (validate_DHTXX b1 b2 b3 b4)
            then (decode_dhtxx (s\<lparr>model := DHTXX\<rparr>))\<lparr>model := DHTAUTO\<rparr>
            else (decode_dhtxx (s\<lparr>model := DHT11\<rparr>))\<lparr>model := DHTAUTO\<rparr>)
         \<and> (fst (validate_DHTXX b1 b2 b3 b4) \<and> fst (validate_DHT11 b1 b2 b3 b4) \<longrightarrow>
              status (decode_dhtxx s) = DHT_GOOD
              \<and> temperature (decode_dhtxx s) = fst (snd (validate_DHTXX b1 b2 b3 b4))
              \<and> humidity (decode_dhtxx s) = snd (snd (validate_DHTXX b1 b2 b3 b4)))
         \<and> (status (decode_dhtxx s) = DHT_BAD_DATA \<longleftrightarrow>
              \<not> fst (validate_DHTXX b1 b2 b3 b4) \<and> \<not> fst (validate_DHT11 b1 b2 b3 b4)))"
proof
  assume a: "model s = DHTAUTO \<and> checksum_ok (code s)"
  then have s: "s\<lparr>model := DHTAUTO\<rparr> = s" by simp
  show "let b1 = frame_byte 1 (code s); b2 = frame_byte 2 (code s);
          b3 = frame_byte 3 (code s); b4 = frame_byte 4 (code s)
      in decode_dhtxx s =
           (if fst (validate_DHTXX b1 b2 b3 b4)
            then (decode_dhtxx (s\<lparr>model := DHTXX\<rparr>))\<lparr>model := DHTAUTO\<rparr>
            else (decode_dhtxx (s\<lparr>model := DHT11\<rparr>))\<lparr>model := DHTAUTO\<rparr>)
         \<and> (fst (validate_DHTXX b1 b2 b3 b4) \<and> fst (validate_DHT11 b1 b2 b3 b4) \<longrightarrow>
              status (decode_dhtxx s) = DHT_GOOD
              \<and> temperature (decode_dhtxx s) = fst (snd (validate_DHTXX b1 b2 b3 b4))
              \<and> humidity (decode_dhtxx s) = snd (snd (validate_DHTXX b1 b2 b3 b4)))
         \<and> (status (decode_dhtxx s) = DHT_BAD_DATA \<longleftrightarrow>
              \<not> fst (validate_DHTXX b1 b2 b3 b4) \<and> \<not> fst (validate_DHT11 b1 b2 b3 b4))"
    unfolding Let_def
  proof (intro conjI impI)
    show "decode_dhtxx s =
      (if fst (validate_DHTXX (frame_byte 1 (code s)) (frame_byte 2 (code s))
                 (frame_byte 3 (code s)) (frame_byte 4 (code s)))
       then (decode_dhtxx (s\<lparr>model := DHTXX\<rparr>))\<lparr>model := DHTAUTO\<rparr>
       else (decode_dhtxx (s\<lparr>model := DHT11\<rparr>))\<lparr>model := DHTAUTO\<rparr>)"
      using a s by (simp add: decode_dhtxx_eq validated_simps split: prod.splits)
  next
    assume "fst (validate_DHTXX (frame_byte 1 (code s)) (frame_byte 2 (code s))
                 (frame_byte 3 (code s)) (frame_byte 4 (code s)))
         \<and> fst (validate_DHT11 (frame_byte 1 (code s)) (frame_byte 2 (code s))
                 (frame_byte 3 (code s)) (frame_byte 4 (code s)))"
    with a show "status (decode_dhtxx s) = DHT_GOOD"
      and "temperature (decode_dhtxx s) = fst (snd (validate_DHTXX (frame_byte 1 (code s))
              (frame_byte 2 (code s)) (frame_byte 3 (code s)) (frame_byte 4 (code s))))"
      and "humidity (decode_dhtxx s) = snd (snd (validate_DHTXX (frame_byte 1 (code s))
              (frame_byte 2 (code s)) (frame_byte 3 (code s)) (frame_byte 4 (code s))))"
      by (simp_all add: status_decode values_decode validated_simps)
  next
    from a show "status (decode_dhtxx s) = DHT_BAD_DATA \<longleftrightarrow>
        \<not> fst (validate_DHTXX (frame_byte 1 (code s)) (frame_byte 2 (code s))
                 (frame_byte 3 (code s)) (frame_byte 4 (code s)))
        \<and> \<not> fst (validate_DHT11 (frame_byte 1 (code s)) (frame_byte 2 (code s))
                 (frame_byte 3 (code s)) (frame_byte 4 (code s)))"
      by (simp add: status_decode validated_simps)
  qed
qed

theorem decode_AUTO_witness:
  "datum (decode_dhtxx ((init 4 DHTAUTO False 0 0)\<lparr>code := frame_of_bytes 6 0x90 0x81 0xF4 1\<rparr>))
     = (0, 4, DHT_GOOD, PyFloat (- 40), PyFloat 50)
   \<and> datum (decode_dhtxx ((init 4 DHTAUTO False 0 0)\<lparr>code := frame_of_bytes 49 0 9 0 40\<rparr>))
     = (0, 4, DHT_GOOD, PyInt 9, PyInt 40)"
proof -
  define sA where "sA = (init 4 DHTAUTO False 0 0)\<lparr>code := frame_of_bytes 6 0x90 0x81 0xF4 1\<rparr>"
  define sB where "sB = (init 4 DHTAUTO False 0 0)\<lparr>code := frame_of_bytes 49 0 9 0 40\<rparr>"
  have b: "is_byte 6" "is_byte 0x90" "is_byte 0x81" "is_byte 0xF4" "is_byte 1"
    "is_byte 49" "is_byte 0" "is_byte 9" "is_byte 40"
    by (simp_all add: is_byte_def)
  have fA: "code sA = frame_of_bytes 6 0x90 0x81 0xF4 1" "model sA = DHTAUTO"
    "timestamp sA = 0" "gpio sA = 4"
    by (simp_all add: sA_def init_def)
  have fB: "code sB = frame_of_bytes 49 0 9 0 40" "model sB = DHTAUTO"
    "timestamp sB = 0" "gpio sB = 4"
    by (simp_all add: sB_def init_def)
  have ok: "checksum_ok (frame_of_bytes 6 0x90 0x81 0xF4 1)"
    "checksum_ok (frame_of_bytes 49 0 9 0 40)"
    by (simp_all add: checksum_ok_def frame_byte_frame_of_bytes b)
  have x: "validate_DHTXX 0x90 0x81 0xF4 1 = (True, PyFloat (- 40), PyFloat 50)"
    "fst (validate_DHTXX 0 9 0 40) = False"
    by (simp_all add: validate_DHTXX_def Let_def)
  have "decode_dhtxx sA = (decode_dhtxx (sA\<lparr>model := DHTXX\<rparr>))\<lparr>model := DHTAUTO\<rparr>"
    using decode_AUTO [of sA] unfolding fA Let_def
    by (simp add: ok frame_byte_frame_of_bytes b x)
  then have A: "datum (decode_dhtxx sA) = (0, 4, DHT_GOOD, PyFloat (- 40), PyFloat 50)"
    by (simp add: datum_def status_decode values_decode decode_other_fields fA ok
        validated_simps frame_byte_frame_of_bytes b x)
  have "decode_dhtxx sB = (decode_dhtxx (sB\<lparr>model := DHT11\<rparr>))\<lparr>model := DHTAUTO\<rparr>"
    using decode_AUTO [of sB] unfolding fB Let_def
    by (simp add: ok frame_byte_frame_of_bytes b x)
  then have B: "datum (decode_dhtxx sB) = (0, 4, DHT_GOOD, PyInt 9, PyInt 40)"
    by (simp add: datum_def status_decode values_decode decode_other_fields fB ok
        validated_simps frame_byte_frame_of_bytes b validate_DHT11_eq)
  from A B show ?thesis unfolding sA_def sB_def ..
qed

text \<open>
  C7. The invariant \<open>frame_inv\<close> of the decoder is preserved by every edge, and
  \<open>_trigger\<close> does not touch it. The handler hands the accumulator to
  \<open>_decode_dhtxx\<close> only at an edge that brings \<open>bits\<close> to exactly 40 with a
  valid data pulse; and for every stream of edges from a sensor that is not inside a
  frame, an edge that hands the accumulator over ends a run of a long gap, two
  discard intervals and 40 intervals that are all valid data pulses, the accumulator
  being the big-endian value of these 40 bits. The partial accumulation of a frame
  aborted by an invalid pulse, or dropped by a new long gap, is never handed over.
\<close>

theorem handoff_only_complete_frames:
  "(frame_inv s hist \<longrightarrow>
      frame_inv (rising_edge tick s) (hist @ [tickDiff (last_edge_tick s) tick]))
   \<and> (hands_off tick s \<longrightarrow>
        bits (rising_edge tick s) = 40
        \<and> 60 \<le> tickDiff (last_edge_tick s) tick \<and> tickDiff (last_edge_tick s) tick \<le> 150)
   \<and> (\<not> in_code s \<and> hands_off tick (run_edges s ticks) \<longrightarrow>
        (\<exists>pre gap d1 d2 ds.
            intervals (last_edge_tick s) (ticks @ [tick]) = pre @ gap # d1 # d2 # ds
            \<and> gap > 10000 \<and> d1 \<le> 10000 \<and> d2 \<le> 10000
            \<and> length ds = 40 \<and> list_all (\<lambda>d. 60 \<le> d \<and> d \<le> 150) ds
            \<and> bits (run_edges s (ticks @ [tick])) = 40
            \<and> code (run_edges s (ticks @ [tick])) = be_bits (map (\<lambda>d. d > 100) ds)))
   \<and> frame_inv (trigger now s) hist = frame_inv s hist"
proof (intro conjI impI)
  show "frame_inv (trigger now s) hist = frame_inv s hist"
    by (simp add: frame_inv_def trigger_fields split: option.splits)
next
  assume "frame_inv s hist"
  then show "frame_inv (rising_edge tick s) (hist @ [tickDiff (last_edge_tick s) tick])"
    by (rule frame_inv_step)
next
  assume h: "hands_off tick s"
  then show "bits (rising_edge tick s) = 40"
    by (simp add: hands_off_iff rising_edge_last_bit decode_other_fields)
  from h show "60 \<le> tickDiff (last_edge_tick s) tick"
    and "tickDiff (last_edge_tick s) tick \<le> 150"
    by (simp_all add: hands_off_iff valid_pulse_def)
next
  assume a: "\<not> in_code s \<and> hands_off tick (run_edges s ticks)"
  define r where "r = run_edges s ticks"
  define hist where "hist = intervals (last_edge_tick s) ticks"
  define d where "d = tickDiff (last_edge_tick r) tick"
  have v: "valid_pulse = (\<lambda>d. 60 \<le> d \<and> d \<le> 150)" and o: "one_bit = (\<lambda>d. d > 100)"
    by (simp_all add: fun_eq_iff valid_pulse_def one_bit_def)
  from a have "frame_inv s []" by (simp add: frame_inv_def)
  then have inv: "frame_inv r hist"
    using frame_inv_run [of s "[]" ticks] by (simp add: r_def hist_def)
  from a have h: "in_code r" "bits r = 39" "valid_pulse d"
    by (simp_all add: hands_off_iff r_def d_def)
  with inv obtain body where b: "since_gap hist = Some body"
    "bits r = int (length body) - 2" "list_all valid_pulse (drop 2 body)"
    "code r = be_bits (map one_bit (drop 2 body))"
    by (auto simp add: frame_inv_def split: option.splits)
  from since_gap_Some [OF b(1)] obtain pre gap where p: "hist = pre @ gap # body"
    "gap > 10000" "list_all (\<lambda>d. d \<le> 10000) body" by blast
  from b(2) h(2) have lb: "length body = 41" by simp
  then obtain d1 d2 ds' where body: "body = d1 # d2 # ds'"
    by (cases body; cases "tl body") auto
  with lb have lds: "length ds' = 39" by simp
  have step: "rising_edge tick r =
     (decode_dhtxx (r\<lparr>last_edge_tick := tick, bits := 40,
        code := 2 * code r + (if one_bit d then 1 else 0)\<rparr>))\<lparr>in_code := False\<rparr>"
    unfolding d_def using h(1,2) h(3) [unfolded d_def] by (rule rising_edge_last_bit)
  have run: "run_edges s (ticks @ [tick]) = rising_edge tick r"
    by (simp add: run_edges_append r_def)
  have iv: "intervals (last_edge_tick s) (ticks @ [tick]) = pre @ gap # d1 # d2 # (ds' @ [d])"
    by (simp add: intervals_append p(1) [unfolded hist_def] body d_def r_def
        last_edge_tick_run del: last.simps)
  have c: "code (run_edges s (ticks @ [tick])) = be_bits (map one_bit (ds' @ [d]))"
    using b(4) by (simp add: run step decode_other_fields body be_bits_snoc)
  have bt: "bits (run_edges s (ticks @ [tick])) = 40"
    by (simp add: run step decode_other_fields)
  have "intervals (last_edge_tick s) (ticks @ [tick]) = pre @ gap # d1 # d2 # (ds' @ [d])
      \<and> gap > 10000 \<and> d1 \<le> 10000 \<and> d2 \<le> 10000
      \<and> length (ds' @ [d]) = 40 \<and> list_all (\<lambda>d. 60 \<le> d \<and> d \<le> 150) (ds' @ [d])
      \<and> bits (run_edges s (ticks @ [tick])) = 40
      \<and> code (run_edges s (ticks @ [tick])) = be_bits (map (\<lambda>d. d > 100) (ds' @ [d]))"
    using iv p(2,3) lds b(3) h(3) c bt unfolding body v o by simp
  then show "\<exists>pre gap d1 d2 ds.
            intervals (last_edge_tick s) (ticks @ [tick]) = pre @ gap # d1 # d2 # ds
            \<and> gap > 10000 \<and> d1 \<le> 10000 \<and> d2 \<le> 10000
            \<and> length ds = 40 \<and> list_all (\<lambda>d. 60 \<le> d \<and> d \<le> 150) ds
            \<and> bits (run_edges s (ticks @ [tick])) = 40
            \<and> code (run_edges s (ticks @ [tick])) = be_bits (map (\<lambda>d. d > 100) ds)"
    by blast
qed

theorem handoff_only_complete_frames_witness:
  "hands_off 8980 (run_edges (init 4 DHTXX False 0 0)
       (ticks_from (- 10000) (15000 # 80 # 80 # take 39 sample_pulses)))
   \<and> (\<exists>pre gap d1 d2 ds.
         intervals (last_edge_tick (init 4 DHTXX False 0 0))
           (ticks_from (- 10000) (15000 # 80 # 80 # take 39 sample_pulses) @ [8980])
           = pre @ gap # d1 # d2 # ds
         \<and> gap > 10000 \<and> d1 \<le> 10000 \<and> d2 \<le> 10000
         \<and> length ds = 40 \<and> list_all (\<lambda>d. 60 \<le> d \<and> d \<le> 150) ds
         \<and> bits (run_edges (init 4 DHTXX False 0 0)
              (ticks_from (- 10000) (15000 # 80 # 80 # take 39 sample_pulses) @ [8980])) = 40
         \<and> code (run_edges (init 4 DHTXX False 0 0)
              (ticks_from (- 10000) (15000 # 80 # 80 # take 39 sample_pulses) @ [8980]))
             = be_bits (map (\<lambda>d. d > 100) ds))"
proof -
  define s0 where "s0 = init 4 DHTXX False 0 0"
  define ticks where "ticks = ticks_from (- 10000) (15000 # 80 # 80 # take 39 sample_pulses)"
  have f0: "last_edge_tick s0 = - 10000" "\<not> in_code s0"
    by (simp_all add: s0_def init_def)
  have iv: "intervals (last_edge_tick s0) ticks = 15000 # 80 # 80 # take 39 sample_pulses"
    unfolding f0 ticks_def
    by (rule intervals_ticks_from) (simp add: sample_pulses_def)
  have lt: "last ticks = 8910"
    by (simp add: ticks_def sample_pulses_def)
  have "run_edges s0 ticks =
           s0\<lparr>last_edge_tick := last ticks, in_code := True,
              bits := int (length (take 39 sample_pulses)),
              code := be_bits (map one_bit (take 39 sample_pulses))\<rparr>
         \<and> handoffs s0 ticks = []"
    using iv by (rule run_partial) (simp_all add: sample_pulses_def valid_pulse_def)
  then have h: "hands_off 8980 (run_edges s0 ticks)"
    by (simp add: hands_off_iff lt tickDiff_def valid_pulse_def sample_pulses_def)
  with f0(2) handoff_only_complete_frames [of s0 "[]" 8980 ticks] show ?thesis
    unfolding s0_def ticks_def by blast
qed

text \<open>
  C6, as the code has it. For every completed frame, the checksum byte \<open>b0\<close> is the
  least significant byte of the accumulator and is the byte transmitted last: the
  last eight data bits shifted into the accumulator form \<open>b0\<close>, and the first eight
  form \<open>b4\<close>, the most significant byte. The bytes \<open>b4, b3, b2, b1, b0\<close> are the
  five groups of eight bits in the order of transmission.
\<close>

theorem checksum_byte_is_sent_last:
  "intervals (last_edge_tick s) ticks = gap # d1 # d2 # ds
   \<and> gap > 10000 \<and> d1 \<le> 10000 \<and> d2 \<le> 10000
   \<and> length ds = 40 \<and> list_all valid_pulse ds \<longrightarrow>
     code (run_edges s ticks) AND 0xFF = be_bits (map one_bit (drop 32 ds))
     \<and> drop_bit 8 (code (run_edges s ticks)) AND 0xFF
          = be_bits (map one_bit (take 8 (drop 24 ds)))
     \<and> drop_bit 16 (code (run_edges s ticks)) AND 0xFF
          = be_bits (map one_bit (take 8 (drop 16 ds)))
     \<and> drop_bit 24 (code (run_edges s ticks)) AND 0xFF
          = be_bits (map one_bit (take 8 (drop 8 ds)))
     \<and> drop_bit 32 (code (run_edges s ticks)) AND 0xFF
          = be_bits (map one_bit (take 8 ds))"
proof
  assume a: "intervals (last_edge_tick s) ticks = gap # d1 # d2 # ds
   \<and> gap > 10000 \<and> d1 \<le> 10000 \<and> d2 \<le> 10000
   \<and> length ds = 40 \<and> list_all valid_pulse ds"
  then have "run_edges s ticks =
           (decode_dhtxx (s\<lparr>last_edge_tick := last ticks, in_code := True, bits := 40,
                             code := be_bits (map one_bit ds)\<rparr>))\<lparr>in_code := False\<rparr>
         \<and> handoffs s ticks = [(be_bits (map one_bit ds), status (run_edges s ticks))]"
    by (intro run_frame [of s ticks gap d1 d2 ds]) simp_all
  then have c: "code (run_edges s ticks) = be_bits (map one_bit ds)"
    by (simp add: decode_other_fields)
  from a have l: "length (map one_bit ds) = 40" by simp
  have fb: "frame_byte 0 (be_bits (map one_bit ds)) = be_bits (map one_bit (drop 32 ds))"
    "frame_byte 1 (be_bits (map one_bit ds)) = be_bits (map one_bit (take 8 (drop 24 ds)))"
    "frame_byte 2 (be_bits (map one_bit ds)) = be_bits (map one_bit (take 8 (drop 16 ds)))"
    "frame_byte 3 (be_bits (map one_bit ds)) = be_bits (map one_bit (take 8 (drop 8 ds)))"
    "frame_byte 4 (be_bits (map one_bit ds)) = be_bits (map one_bit (take 8 ds))"
    using a by (simp_all add: frame_byte_of_40_bits [OF l] take_map drop_map)
  show "code (run_edges s ticks) AND 0xFF = be_bits (map one_bit (drop 32 ds))
     \<and> drop_bit 8 (code (run_edges s ticks)) AND 0xFF
          = be_bits (map one_bit (take 8 (drop 24 ds)))
     \<and> drop_bit 16 (code (run_edges s ticks)) AND 0xFF
          = be_bits (map one_bit (take 8 (drop 16 ds)))
     \<and> drop_bit 24 (code (run_edges s ticks)) AND 0xFF
          = be_bits (map one_bit (take 8 (drop 8 ds)))
     \<and> drop_bit 32 (code (run_edges s ticks)) AND 0xFF
          = be_bits (map one_bit (take 8 ds))"
    apply (simp only: c byte_simps(2-5))
    apply (simp only: byte_simps(1))
    apply (simp only: fb)
    done
qed

theorem checksum_byte_is_sent_last_witness:
  "code (run_edges (init 4 DHTXX False 0 0)
           (ticks_from (- 10000) (15000 # 80 # 80 # sample_pulses))) AND 0xFF
     = be_bits (map one_bit (drop 32 sample_pulses))
   \<and> be_bits (map one_bit (drop 32 sample_pulses)) = 0xEE"
proof -
  define s0 where "s0 = init 4 DHTXX False 0 0"
  define ticks where "ticks = ticks_from (- 10000) (15000 # 80 # 80 # sample_pulses)"
  have f0: "last_edge_tick s0 = - 10000" by (simp add: s0_def init_def)
  have iv: "intervals (last_edge_tick s0) ticks = 15000 # 80 # 80 # sample_pulses"
    unfolding f0 ticks_def
    by (rule intervals_ticks_from) (simp add: sample_pulses_def)
  have v: "list_all valid_pulse sample_pulses" "length sample_pulses = 40"
    by (simp_all add: sample_pulses_def valid_pulse_def)
  have e: "be_bits (map one_bit (drop 32 sample_pulses)) = 0xEE"
    by (simp add: sample_pulses_def one_bit_def be_bits_def)
  from checksum_byte_is_sent_last [of s0 ticks 15000 80 80 sample_pulses] iv v e
  show ?thesis unfolding s0_def ticks_def by simp
qed

text \<open>
  C6 as stated fails on the sample transmission: its first eight data bits are
  \<open>0x02\<close>, which the interpreter extracts as \<open>b4\<close>, and the byte it extracts as
  \<open>b0\<close> is \<open>0xEE\<close>, the last eight bits.
\<close>

theorem first_byte_sent_is_not_b0:
  "be_bits (map one_bit (take 8 sample_pulses)) = 0x02
   \<and> code (run_edges (init 4 DHTXX False 0 0)
         (ticks_from (- 10000) (15000 # 80 # 80 # sample_pulses))) AND 0xFF = 0xEE
   \<and> drop_bit 32 (code (run_edges (init 4 DHTXX False 0 0)
         (ticks_from (- 10000) (15000 # 80 # 80 # sample_pulses)))) AND 0xFF = 0x02
   \<and> code (run_edges (init 4 DHTXX False 0 0)
         (ticks_from (- 10000) (15000 # 80 # 80 # sample_pulses))) AND 0xFF
       \<noteq> be_bits (map one_bit (take 8 sample_pulses))"
proof -
  define s0 where "s0 = init 4 DHTXX False 0 0"
  define ticks where "ticks = ticks_from (- 10000) (15000 # 80 # 80 # sample_pulses)"
  have f0: "last_edge_tick s0 = - 10000" by (simp add: s0_def init_def)
  have iv: "intervals (last_edge_tick s0) ticks = 15000 # 80 # 80 # sample_pulses"
    unfolding f0 ticks_def
    by (rule intervals_ticks_from) (simp add: sample_pulses_def)
  have v: "list_all valid_pulse sample_pulses" "length sample_pulses = 40"
    by (simp_all add: sample_pulses_def valid_pulse_def)
  have "run_edges s0 ticks =
           (decode_dhtxx (s0\<lparr>last_edge_tick := last ticks, in_code := True, bits := 40,
                             code := be_bits (map one_bit sample_pulses)\<rparr>))\<lparr>in_code := False\<rparr>
         \<and> handoffs s0 ticks = [(be_bits (map one_bit sample_pulses), status (run_edges s0 ticks))]"
    using iv by (rule run_frame) (simp_all add: v)
  then have "code (run_edges s0 ticks) = be_bits (map one_bit sample_pulses)"
    by (simp add: decode_other_fields)
  also have "\<dots> = 0x028C015FEE"
    by (simp add: sample_pulses_def one_bit_def be_bits_def)
  finally have c: "code (run_edges s0 ticks) = 0x028C015FEE" .
  have b: "be_bits (map one_bit (take 8 sample_pulses)) = 0x02"
    by (simp add: sample_pulses_def one_bit_def be_bits_def)
  have x: "(0x028C015FEE :: int) AND 0xFF = 0xEE" "drop_bit 32 (0x028C015FEE :: int) AND 0xFF = 0x02"
    by (simp_all add: and_255 drop_bit_eq_div)
  show ?thesis
    unfolding s0_def [symmetric] ticks_def [symmetric] c b x by simp
qed

text \<open>
  C8, as the code has it. For every call of \<open>read\<close>, the callback, when one was
  given, is called exactly once, with the tuple that \<open>read\<close> returns, whatever its
  status: \<open>DHT_GOOD\<close>, \<open>DHT_BAD_CHECKSUM\<close>, \<open>DHT_BAD_DATA\<close> or \<open>DHT_TIMEOUT\<close>.
  It is not called when none was given.
\<close>

theorem callback_once_per_read:
  "calls (read now arrivals s) = (if callback s then [returned (read now arrivals s)] else [])"
  by (simp add: read_result)

theorem callback_once_per_read_witness:
  "calls (read 7 [] (init 4 DHTAUTO True 0 0)) = [returned (read 7 [] (init 4 DHTAUTO True 0 0))]
   \<and> calls (read 7 [] (init 4 DHTAUTO False 0 0)) = []"
  using callback_once_per_read [of 7 "[]" "init 4 DHTAUTO True 0 0"]
    callback_once_per_read [of 7 "[]" "init 4 DHTAUTO False 0 0"]
  by (simp add: init_def)

text \<open>
  C8 as stated fails: a read during which no edge arrives returns a reading with the
  status \<open>DHT_TIMEOUT\<close>, and the callback is called with it.
\<close>

theorem callback_called_on_timeout:
  "calls (read 7 [] (init 4 DHTAUTO True 0 0)) = [(7, 4, DHT_TIMEOUT, PyFloat 0, PyFloat 0)]"
proof -
  define s1 where "s1 = trigger 7 (init 4 DHTAUTO True 0 0)"
  have "wait_loop 5 [] s1 = (run_edges s1 (concat (take 5 [])), 5)"
    by (rule wait_loop_quiet) (simp_all add: s1_def trigger_fields)
  then have w: "wait_loop 5 [] (trigger 7 (init 4 DHTAUTO True 0 0)) = (s1, 5)"
    by (simp add: s1_def)
  have d: "datum s1 = (7, 4, DHT_TIMEOUT, PyFloat 0, PyFloat 0)" "callback s1"
    by (simp_all add: s1_def datum_def trigger_def init_def)
  show ?thesis by (simp add: read_unfold [OF w] d)
qed

text \<open>
  C9. Every call of \<open>read\<close> resets the status to \<open>DHT_TIMEOUT\<close> (and clears
  \<open>new_data\<close>) when it triggers; its loop sleeps at most 5 times 50 ms, 250 ms in
  all, and ends (\<open>read\<close> is a total function, by recursion on the five iterations);
  and when no frame is completed by the edges that arrive during these sleeps, the
  tuple returned has the status \<open>DHT_TIMEOUT\<close>, after all five sleeps.
\<close>

theorem read_times_out:
  "sleeps (read now arrivals s) \<le> 5
   \<and> 50 * sleeps (read now arrivals s) \<le> 250
   \<and> status (trigger now s) = DHT_TIMEOUT \<and> \<not> new_data (trigger now s)
   \<and> (\<exists>r. read now arrivals s = r
          \<and> sensor_after r = run_edges (trigger now s) (concat (take (sleeps r) arrivals))
          \<and> returned r = datum (sensor_after r))
   \<and> (handoffs (trigger now s) (concat (take 5 arrivals)) = [] \<longrightarrow>
         sleeps (read now arrivals s) = 5
         \<and> returned (read now arrivals s)
             = (now, gpio s, DHT_TIMEOUT, temperature s, humidity s))"
proof (intro conjI impI)
  show "sleeps (read now arrivals s) \<le> 5" by (rule read_run)
  then show "50 * sleeps (read now arrivals s) \<le> 250" by simp
  show "status (trigger now s) = DHT_TIMEOUT" and "\<not> new_data (trigger now s)"
    by (simp_all add: trigger_fields)
  show "\<exists>r. read now arrivals s = r
          \<and> sensor_after r = run_edges (trigger now s) (concat (take (sleeps r) arrivals))
          \<and> returned r = datum (sensor_after r)"
    using read_run(2,3) [of now arrivals s] by blast
next
  assume q: "handoffs (trigger now s) (concat (take 5 arrivals)) = []"
  have w: "wait_loop 5 arrivals (trigger now s)
             = (run_edges (trigger now s) (concat (take 5 arrivals)), 5)"
    using q by (intro wait_loop_quiet) (simp_all add: trigger_fields)
  show "sleeps (read now arrivals s) = 5"
    by (simp add: read_result w)
  from run_edges_quiet [OF q]
  show "returned (read now arrivals s) = (now, gpio s, DHT_TIMEOUT, temperature s, humidity s)"
    by (simp add: read_result w datum_def run_edges_config trigger_fields)
qed

theorem read_times_out_witness:
  "returned (read 7 [ticks_from (- 10000) (15000 # 80 # 80 # take 39 sample_pulses)]
       (init 4 DHTXX False 0 0))
     = (7, 4, DHT_TIMEOUT, PyFloat 0, PyFloat 0)
   \<and> sleeps (read 7 [ticks_from (- 10000) (15000 # 80 # 80 # take 39 sample_pulses)]
       (init 4 DHTXX False 0 0)) = 5"
proof -
  define s0 where "s0 = init 4 DHTXX False 0 0"
  define ticks where "ticks = ticks_from (- 10000) (15000 # 80 # 80 # take 39 sample_pulses)"
  have f0: "last_edge_tick (trigger 7 s0) = - 10000" "gpio s0 = 4"
    "temperature s0 = PyFloat 0" "humidity s0 = PyFloat 0"
    by (simp_all add: s0_def init_def trigger_def)
  have iv: "intervals (last_edge_tick (trigger 7 s0)) ticks
              = 15000 # 80 # 80 # take 39 sample_pulses"
    unfolding f0 ticks_def
    by (rule intervals_ticks_from) (simp add: sample_pulses_def)
  have "run_edges (trigger 7 s0) ticks =
           (trigger 7 s0)\<lparr>last_edge_tick := last ticks, in_code := True,
              bits := int (length (take 39 sample_pulses)),
              code := be_bits (map one_bit (take 39 sample_pulses))\<rparr>
         \<and> handoffs (trigger 7 s0) ticks = []"
    using iv by (rule run_partial) (simp_all add: sample_pulses_def valid_pulse_def)
  then have "handoffs (trigger 7 s0) (concat (take 5 [ticks])) = []" by simp
  with read_times_out [of 7 "[ticks]" s0]
  have "sleeps (read 7 [ticks] s0) = 5
     \<and> returned (read 7 [ticks] s0) = (7, gpio s0, DHT_TIMEOUT, temperature s0, humidity s0)"
    by blast
  then show ?thesis
    unfolding f0 unfolding s0_def ticks_def by blast
qed

text \<open>
  C10. A frame decoded as \<open>DHT_BAD_CHECKSUM\<close> or \<open>DHT_BAD_DATA\<close> leaves the stored
  temperature and humidity unchanged. So the tuple \<open>read\<close> returns carries the
  temperature and humidity of the most recent good reading, those stored before the
  call when no frame decoded during the call was good, and the initial \<open>0.0\<close> of
  the constructor when there never was a good reading: never zeroed values or values
  of the bad frame.
\<close>

theorem bad_frame_keeps_values:
  "(status (decode_dhtxx s) = DHT_BAD_CHECKSUM \<or> status (decode_dhtxx s) = DHT_BAD_DATA \<longrightarrow>
      temperature (decode_dhtxx s) = temperature s
      \<and> humidity (decode_dhtxx s) = humidity s)
   \<and> returned (read now arrivals s) =
        (now, gpio s, status (sensor_after (read now arrivals s)),
         fst (last_good (model s) (temperature s, humidity s)
                (handoffs (trigger now s)
                   (concat (take (sleeps (read now arrivals s)) arrivals)))),
         snd (last_good (model s) (temperature s, humidity s)
                (handoffs (trigger now s)
                   (concat (take (sleeps (read now arrivals s)) arrivals)))))
   \<and> (list_all (\<lambda>h. snd h \<noteq> DHT_GOOD)
          (handoffs (trigger now s) (concat (take (sleeps (read now arrivals s)) arrivals))) \<longrightarrow>
        returned (read now arrivals s) =
          (now, gpio s, status (sensor_after (read now arrivals s)),
           temperature s, humidity s))
   \<and> temperature (init g m cb t0 tick0) = PyFloat 0
   \<and> humidity (init g m cb t0 tick0) = PyFloat 0"
proof -
  let ?r = "read now arrivals s"
  let ?hs = "handoffs (trigger now s) (concat (take (sleeps ?r) arrivals))"
  have dec: "status (decode_dhtxx s) = DHT_BAD_CHECKSUM \<or> status (decode_dhtxx s) = DHT_BAD_DATA \<longrightarrow>
      temperature (decode_dhtxx s) = temperature s \<and> humidity (decode_dhtxx s) = humidity s"
    using decode_values [of s] by auto
  have after: "sensor_after ?r = run_edges (trigger now s) (concat (take (sleeps ?r) arrivals))"
    by (rule read_run)
  have vals: "(temperature (sensor_after ?r), humidity (sensor_after ?r))
                = last_good (model s) (temperature s, humidity s) ?hs"
    unfolding after
    using run_edges_values [of "trigger now s" "concat (take (sleeps ?r) arrivals)"]
    by (simp only: trigger_fields)
  have ret: "returned ?r = (now, gpio s, status (sensor_after ?r),
         temperature (sensor_after ?r), humidity (sensor_after ?r))"
    unfolding read_run(3) datum_def
    by (simp add: after run_edges_config trigger_fields)
  have r1: "returned ?r = (now, gpio s, status (sensor_after ?r),
         fst (last_good (model s) (temperature s, humidity s) ?hs),
         snd (last_good (model s) (temperature s, humidity s) ?hs))"
    unfolding vals [symmetric] using ret by simp
  have r2: "list_all (\<lambda>h. snd h \<noteq> DHT_GOOD) ?hs \<longrightarrow>
        returned ?r = (now, gpio s, status (sensor_after ?r), temperature s, humidity s)"
    using r1 by (simp add: last_good_none)
  have i: "temperature (init g m cb t0 tick0) = PyFloat 0"
    "humidity (init g m cb t0 tick0) = PyFloat 0"
    by (simp_all add: init_def)
  from dec r1 r2 i show ?thesis by blast
qed

theorem bad_frame_keeps_values_witness:
  "returned
     (read 9 [ticks_from 8980 (15000 # 80 # 80 # take 39 sample_pulses @ [130])]
        (run_edges (init 4 DHTXX False 0 0)
           (ticks_from (- 10000) (15000 # 80 # 80 # sample_pulses))))
   = (9, 4, DHT_BAD_CHECKSUM, PyFloat (351 / 10), PyFloat (652 / 10))"
proof -
  define s0 where "s0 = init 4 DHTXX False 0 0"
  define good where "good = ticks_from (- 10000) (15000 # 80 # 80 # sample_pulses)"
  define bad_pulses where "bad_pulses = take 39 sample_pulses @ [130]"
  define bad where "bad = ticks_from 8980 (15000 # 80 # 80 # bad_pulses)"
  define sg where "sg = run_edges s0 good"
  define s1 where "s1 = trigger 9 sg"
  have f0: "last_edge_tick s0 = - 10000" "model s0 = DHTXX" "gpio s0 = 4"
    by (simp_all add: s0_def init_def)
  have v: "list_all valid_pulse sample_pulses" "length sample_pulses = 40"
    "list_all valid_pulse bad_pulses" "length bad_pulses = 40"
    by (simp_all add: bad_pulses_def sample_pulses_def valid_pulse_def)
  have c: "be_bits (map one_bit sample_pulses) = 0x028C015FEE"
    "be_bits (map one_bit bad_pulses) = 0x028C015FEF"
    by (simp_all add: bad_pulses_def sample_pulses_def one_bit_def be_bits_def)
  have lg: "last good = 8980"
    by (simp add: good_def sample_pulses_def)
  have "intervals (last_edge_tick s0) good = 15000 # 80 # 80 # sample_pulses"
    unfolding f0 good_def
    by (rule intervals_ticks_from) (simp add: sample_pulses_def)
  then have "run_edges s0 good =
           (decode_dhtxx (s0\<lparr>last_edge_tick := last good, in_code := True, bits := 40,
                             code := be_bits (map one_bit sample_pulses)\<rparr>))\<lparr>in_code := False\<rparr>
         \<and> handoffs s0 good = [(be_bits (map one_bit sample_pulses), status (run_edges s0 good))]"
    by (rule run_frame) (simp_all add: v)
  then have g: "temperature sg = PyFloat (351 / 10)" "humidity sg = PyFloat (652 / 10)"
    "gpio sg = 4" "model sg = DHTXX" "last_edge_tick sg = 8980"
    by (simp_all add: sg_def values_decode decode_other_fields c lg f0 sample_frame_decodes)
  have f1: "last_edge_tick s1 = 8980" "\<not> new_data s1" "model s1 = DHTXX"
    by (simp_all add: s1_def trigger_fields g)
  have "intervals (last_edge_tick s1) bad = 15000 # 80 # 80 # bad_pulses"
    unfolding f1 bad_def
    by (rule intervals_ticks_from) (simp add: bad_pulses_def sample_pulses_def)
  then have "run_edges s1 bad =
           (decode_dhtxx (s1\<lparr>last_edge_tick := last bad, in_code := True, bits := 40,
                             code := be_bits (map one_bit bad_pulses)\<rparr>))\<lparr>in_code := False\<rparr>
         \<and> handoffs s1 bad = [(be_bits (map one_bit bad_pulses), status (run_edges s1 bad))]"
    by (rule run_frame) (simp_all add: v)
  moreover have "\<not> checksum_ok 0x028C015FEF"
    by (simp add: checksum_ok_def frame_byte_def)
  ultimately have b: "status (run_edges s1 bad) = DHT_BAD_CHECKSUM" "new_data (run_edges s1 bad)"
    "handoffs s1 bad = [(0x028C015FEF, DHT_BAD_CHECKSUM)]"
    by (simp_all add: status_decode decode_other_fields c)
  have "wait_loop (Suc 4) [bad] s1 = (run_edges s1 bad, 1)"
    using b(2) by (rule wait_loop_first)
  then have w: "wait_loop 5 [bad] (trigger 9 sg) = (run_edges s1 bad, 1)"
    by (simp add: s1_def)
  have r: "sleeps (read 9 [bad] sg) = 1" "sensor_after (read 9 [bad] sg) = run_edges s1 bad"
    by (simp_all add: read_result w)
  have "list_all (\<lambda>h. snd h \<noteq> DHT_GOOD)
          (handoffs (trigger 9 sg) (concat (take (sleeps (read 9 [bad] sg)) [bad])))"
    by (simp add: r s1_def [symmetric] b)
  with bad_frame_keeps_values [of sg 9 "[bad]"]
  have "returned (read 9 [bad] sg) =
          (9, gpio sg, status (sensor_after (read 9 [bad] sg)), temperature sg, humidity sg)"
    by blast
  then show ?thesis
    unfolding r b g unfolding sg_def s0_def good_def bad_def bad_pulses_def by simp
qed

end
